theory Spec2Isabelle
  imports Complex_Main "HOL-Library.AList"
begin

section \<open>Python and numpy values\<close>

text \<open>
  The optimizer is Python code on top of PuLP (the MILP modelling library), pandas and
  numpy. Finite floating-point numbers are idealised as reals: no rounding, no overflow.
  What is kept of the floating-point world is what the code can observe without rounding:
  a Python \<^verbatim>\<open>/\<close> on Python numbers raises \<^verbatim>\<open>ZeroDivisionError\<close> on a zero
  divisor, while the same operator on numpy scalars (the results of a pandas column
  \<^verbatim>\<open>.sum()\<close>) returns \<^verbatim>\<open>inf\<close>, \<^verbatim>\<open>-inf\<close> or \<^verbatim>\<open>nan\<close> and goes on.
\<close>

datatype py_error = IndexError | TypeError | ZeroDivisionError | PulpError

datatype np_float = Fin real | PInf | NInf | NaN

definition py_div :: "real \<Rightarrow> real \<Rightarrow> py_error + real" where
  "py_div a b = (if b = 0 then Inl ZeroDivisionError else Inr (a / b))"

definition np_div :: "real \<Rightarrow> real \<Rightarrow> np_float" where
  "np_div a b =
     (if b \<noteq> 0 then Fin (a / b)
      else if 0 < a then PInf
      else if a < 0 then NInf
      else NaN)"

text \<open>Multiplication of a numpy scalar by a positive Python constant (100, 720, 12).\<close>

definition np_mul :: "np_float \<Rightarrow> real \<Rightarrow> np_float" where
  "np_mul x c =
     (case x of
        Fin r \<Rightarrow> Fin (r * c)
      | PInf \<Rightarrow> (if 0 < c then PInf else if c < 0 then NInf else NaN)
      | NInf \<Rightarrow> (if 0 < c then NInf else if c < 0 then PInf else NaN)
      | NaN \<Rightarrow> NaN)"

text \<open>\<^verbatim>\<open>range(n)\<close> and \<^verbatim>\<open>range(1, n)\<close> for a Python int \<open>n\<close>: empty when \<open>n\<close> is not positive.\<close>

definition range_py :: "int \<Rightarrow> nat list" where
  "range_py n = [0..<nat n]"

definition range_from1 :: "int \<Rightarrow> nat list" where
  "range_from1 n = [1..<nat n]"

text \<open>Sequencing of computations that may raise, and a \<^verbatim>\<open>for\<close> loop over a mutable state.\<close>

definition and_then :: "py_error + 'a \<Rightarrow> ('a \<Rightarrow> py_error + 'b) \<Rightarrow> py_error + 'b" where
  "and_then r f = (case r of Inl e \<Rightarrow> Inl e | Inr x \<Rightarrow> f x)"

fun for_each :: "'a list \<Rightarrow> ('s \<Rightarrow> 'a \<Rightarrow> py_error + 's) \<Rightarrow> 's \<Rightarrow> py_error + 's" where
  "for_each [] body s = Inr s"
| "for_each (x # xs) body s = and_then (body s x) (for_each xs body)"


section \<open>Inputs of the optimizer\<close>

text \<open>
  \<^verbatim>\<open>pump_configs\<close> is a list of dicts \<^verbatim>\<open>{id, capacity_m3h, power_kw}\<close> and
  \<^verbatim>\<open>tariff_config\<close> a dict \<^verbatim>\<open>{peak, offpeak, subscribed_power, penalty_rate}\<close>
  (the constructor's docstring); \<^verbatim>\<open>demand_forecast\<close> is the list of hourly demands.
\<close>

record pump_config =
  pump_id :: string
  capacity_m3h :: real
  power_kw :: real

record tariff_config =
  peak :: real
  offpeak :: real
  subscribed_power :: real
  penalty_rate :: real


section \<open>The part of PuLP the optimizer uses\<close>

text \<open>
  The four dictionaries of decision variables are keyed by \<^verbatim>\<open>(p['id'], t)\<close> or by
  \<^verbatim>\<open>t\<close>; a key is a constructor application here.
\<close>

datatype var =
    Pump_status string nat
  | Total_power nat
  | Penalty nat
  | Startup string nat

datatype lp_cat = Continuous | Binary

record lp_variable =
  var_key :: var
  lowBound :: "real option"
  cat :: lp_cat

definition LpVariable :: "var \<Rightarrow> real option \<Rightarrow> lp_cat \<Rightarrow> lp_variable" where
  "LpVariable k lb c = \<lparr>var_key = k, lowBound = lb, cat = c\<rparr>"

text \<open>Affine expressions, as the Python operators and \<^verbatim>\<open>lpSum\<close> build them.\<close>

datatype lp_expr =
    V var
  | N real
  | Plus lp_expr lp_expr
  | Minus lp_expr lp_expr
  | Scale real lp_expr
  | LpSum "lp_expr list"

datatype lp_sense = LE | GE | EQ

datatype lp_constraint = Constraint lp_expr lp_sense lp_expr

text \<open>
  Constraint names are f-strings over the hour and the pump id
  (\<^verbatim>\<open>demand_satisfaction_h{t}\<close>, \<^verbatim>\<open>total_power_calc_h{t}\<close>, \<^verbatim>\<open>penalty_calc_h{t}\<close>,
  \<^verbatim>\<open>startup_detect_{id}_h{t}\<close>, \<^verbatim>\<open>max_startups_{id}\<close>). They are kept structured:
  two names are equal when kind, id and hour are. Pump ids are taken free of the
  characters that PuLP rewrites in names.
\<close>

datatype cname =
    Demand_satisfaction nat
  | Total_power_calc nat
  | Penalty_calc nat
  | Startup_detect string nat
  | Max_startups string

datatype lp_direction = LpMinimize | LpMaximize

record lp_problem =
  direction :: lp_direction
  objective :: lp_expr
  constraints :: "(cname \<times> lp_constraint) list"
  variables :: "lp_variable list"

text \<open>
  \<^verbatim>\<open>prob += (constraint, name)\<close>: PuLP's \<^verbatim>\<open>addConstraint\<close> raises \<^verbatim>\<open>PulpError\<close>
  (overlapping constraint names) when the name is already in the problem.
\<close>

definition addConstraint :: "lp_problem \<Rightarrow> cname \<times> lp_constraint \<Rightarrow> py_error + lp_problem" where
  "addConstraint prob nc =
     (if fst nc \<in> set (map fst (constraints prob)) then Inl PulpError
      else Inr (prob\<lparr>constraints := constraints prob @ [nc]\<rparr>))"

text \<open>The value of an expression under an assignment of the variables.\<close>

fun eval :: "(var \<Rightarrow> real) \<Rightarrow> lp_expr \<Rightarrow> real" where
  "eval a (V v) = a v"
| "eval a (N c) = c"
| "eval a (Plus e1 e2) = eval a e1 + eval a e2"
| "eval a (Minus e1 e2) = eval a e1 - eval a e2"
| "eval a (Scale c e) = c * eval a e"
| "eval a (LpSum es) = sum_list (map (eval a) es)"

text \<open>The coefficient of a variable in an expression.\<close>

fun coeff :: "lp_expr \<Rightarrow> var \<Rightarrow> real" where
  "coeff (V v) w = (if v = w then 1 else 0)"
| "coeff (N c) w = 0"
| "coeff (Plus e1 e2) w = coeff e1 w + coeff e2 w"
| "coeff (Minus e1 e2) w = coeff e1 w - coeff e2 w"
| "coeff (Scale c e) w = c * coeff e w"
| "coeff (LpSum es) w = sum_list (map (\<lambda>e. coeff e w) es)"

fun holds :: "(var \<Rightarrow> real) \<Rightarrow> lp_constraint \<Rightarrow> bool" where
  "holds a (Constraint l LE r) = (eval a l \<le> eval a r)"
| "holds a (Constraint l GE r) = (eval a l \<ge> eval a r)"
| "holds a (Constraint l EQ r) = (eval a l = eval a r)"

text \<open>
  A variable's domain: its lower bound, and for \<^verbatim>\<open>cat='Binary'\<close> the values 0 and 1.
\<close>

definition in_domain :: "(var \<Rightarrow> real) \<Rightarrow> lp_variable \<Rightarrow> bool" where
  "in_domain a x =
     ((case lowBound x of None \<Rightarrow> True | Some l \<Rightarrow> l \<le> a (var_key x)) \<and>
      (case cat x of Continuous \<Rightarrow> True | Binary \<Rightarrow> a (var_key x) = 0 \<or> a (var_key x) = 1))"

text \<open>An assignment the problem accepts: every variable in its domain, every constraint met.\<close>

definition feasible :: "lp_problem \<Rightarrow> (var \<Rightarrow> real) \<Rightarrow> bool" where
  "feasible prob a =
     (list_all (in_domain a) (variables prob) \<and>
      list_all (\<lambda>nc. holds a (snd nc)) (constraints prob))"


section \<open>The optimizer object and what it prints\<close>

record hour_data =
  hour :: nat
  demand_m3h :: real
  total_power_kw :: real
  penalty_fcfa :: real
  tariff_fcfa_kwh :: real
  pumps_active :: "string list"
  pumps_status :: "(string \<times> string) list"
  energy_cost_fcfa :: real
  total_cost_fcfa :: real

record solution =
  schedule :: "hour_data list"
  total_cost :: real
  total_energy :: real
  total_penalties :: real
  status :: string
  solve_time :: real

record optimizer =
  demand :: "real list"
  pumps :: "pump_config list"
  tariff :: tariff_config
  solution :: "solution option"

text \<open>
  The messages printed on the way (banners left out), each with the values it shows.
\<close>

datatype event =
    Msg_construction int nat
  | Msg_objective_defined
  | Msg_constraints_added nat
  | Warn_demand_short nat
  | Msg_solver_launch
  | Msg_status string
  | Warn_not_optimal
  | Msg_infeasible
  | Msg_unbounded
  | Msg_optimized_cost real
  | Msg_energy real
  | Msg_penalties real real
  | Msg_no_solution
  | Msg_costs real real real np_float
  | Msg_energies real real real np_float
  | Msg_penalty_reduction real real real np_float
  | Msg_projection np_float np_float


section \<open>\<^verbatim>\<open>build_optimization_problem\<close>\<close>

text \<open>The objective: energy at the hour's tariff, penalties, and 5000 per start-up.\<close>

definition objective_expr :: "optimizer \<Rightarrow> nat list \<Rightarrow> lp_expr" where
  "objective_expr self hours =
     LpSum (map (\<lambda>t.
       Plus (Plus (Scale (if 7 \<le> t \<and> t < 23 then peak (tariff self) else offpeak (tariff self))
                         (V (Total_power t)))
                  (V (Penalty t)))
            (LpSum (map (\<lambda>p. Scale 5000 (V (Startup (pump_id p) t))) (pumps self))))
       hours)"

text \<open>The named constraint that each loop body adds.\<close>

definition demand_satisfaction :: "optimizer \<Rightarrow> nat \<Rightarrow> cname \<times> lp_constraint" where
  "demand_satisfaction self t =
     (Demand_satisfaction t,
      Constraint (LpSum (map (\<lambda>p. Scale (capacity_m3h p) (V (Pump_status (pump_id p) t)))
                             (pumps self)))
                 GE (N (demand self ! t)))"

definition total_power_calc :: "optimizer \<Rightarrow> nat \<Rightarrow> cname \<times> lp_constraint" where
  "total_power_calc self t =
     (Total_power_calc t,
      Constraint (V (Total_power t)) EQ
                 (LpSum (map (\<lambda>p. Scale (power_kw p) (V (Pump_status (pump_id p) t)))
                             (pumps self))))"

definition penalty_calc :: "optimizer \<Rightarrow> nat \<Rightarrow> cname \<times> lp_constraint" where
  "penalty_calc self t =
     (Penalty_calc t,
      Constraint (V (Penalty t)) GE
                 (Scale (penalty_rate (tariff self))
                        (Minus (V (Total_power t)) (N (subscribed_power (tariff self))))))"

definition startup_detect :: "pump_config \<Rightarrow> nat \<Rightarrow> cname \<times> lp_constraint" where
  "startup_detect p t =
     (Startup_detect (pump_id p) t,
      Constraint (V (Startup (pump_id p) t)) GE
                 (Minus (V (Pump_status (pump_id p) t)) (V (Pump_status (pump_id p) (t - 1)))))"

definition max_startups :: "int \<Rightarrow> pump_config \<Rightarrow> cname \<times> lp_constraint" where
  "max_startups horizon_hours p =
     (Max_startups (pump_id p),
      Constraint (LpSum (map (\<lambda>t. V (Startup (pump_id p) t))
                             (range_py (min 24 horizon_hours))))
                 LE (N 8))"

text \<open>The variables the method creates, in the order of its four nested loops.\<close>

definition declared_variables :: "optimizer \<Rightarrow> nat list \<Rightarrow> lp_variable list" where
  "declared_variables self hours =
     (let pump_status = concat (map (\<lambda>p. map (\<lambda>t.
              LpVariable (Pump_status (pump_id p) t) None Binary) hours) (pumps self));
          total_power = map (\<lambda>t. LpVariable (Total_power t) (Some 0) Continuous) hours;
          penalty = map (\<lambda>t. LpVariable (Penalty t) (Some 0) Continuous) hours;
          startup = concat (map (\<lambda>p. map (\<lambda>t.
              LpVariable (Startup (pump_id p) t) None Binary) hours) (pumps self))
      in pump_status @ total_power @ penalty @ startup)"

text \<open>
  The method creates the variables, sets the objective and then adds the constraints loop
  by loop. \<^verbatim>\<open>self.demand[t]\<close> raises \<^verbatim>\<open>IndexError\<close> past the end of the forecast.
\<close>

definition build_optimization_problem ::
  "optimizer \<Rightarrow> int \<Rightarrow> event list \<times> (py_error + lp_problem)" where
  "build_optimization_problem self horizon_hours =
     (let hours = range_py horizon_hours;
          prob = \<lparr>direction = LpMinimize, objective = objective_expr self hours,
                  constraints = [], variables = declared_variables self hours\<rparr>;
          result =
            and_then (for_each hours (\<lambda>prob t.
                if t < length (demand self)
                then addConstraint prob (demand_satisfaction self t)
                else Inl IndexError) prob) (\<lambda>prob.
            and_then (for_each hours (\<lambda>prob t.
                addConstraint prob (total_power_calc self t)) prob) (\<lambda>prob.
            and_then (for_each hours (\<lambda>prob t.
                addConstraint prob (penalty_calc self t)) prob) (\<lambda>prob.
            and_then (for_each (pumps self) (\<lambda>prob p.
                for_each (range_from1 horizon_hours) (\<lambda>prob t.
                  addConstraint prob (startup_detect p t)) prob) prob) (\<lambda>prob.
            for_each (pumps self) (\<lambda>prob p.
                addConstraint prob (max_startups horizon_hours p)) prob))))
      in ([Msg_construction horizon_hours (length (pumps self)), Msg_objective_defined]
            @ (case result of Inl e \<Rightarrow> []
               | Inr p \<Rightarrow> [Msg_constraints_added (length (constraints p))]),
          result))"

text \<open>
  The problem the method returns when no statement raises: the five families of
  constraints in the order of the loops (lemma \<open>build_result\<close> below).
\<close>

definition formulated :: "optimizer \<Rightarrow> int \<Rightarrow> lp_problem" where
  "formulated self h =
     \<lparr>direction = LpMinimize,
      objective = objective_expr self (range_py h),
      constraints =
        map (demand_satisfaction self) (range_py h) @
        map (total_power_calc self) (range_py h) @
        map (penalty_calc self) (range_py h) @
        concat (map (\<lambda>p. map (startup_detect p) (range_from1 h)) (pumps self)) @
        map (max_startups h) (pumps self),
      variables = declared_variables self (range_py h)\<rparr>"


section \<open>\<^verbatim>\<open>optimize_schedule\<close>\<close>

text \<open>
  The solver is outside the repository: \<^verbatim>\<open>prob.solve(PULP_CBC_CMD(msg=1, timeLimit=60))\<close>
  leaves a status in the problem and a \<^verbatim>\<open>varValue\<close> (possibly \<^verbatim>\<open>None\<close>) in every
  variable. It is a parameter of the model, together with the wall-clock time it took.
  \<^verbatim>\<open>LpStatus[prob.status]\<close> is the status as a string; PuLP's table holds
  \<^verbatim>\<open>Not Solved\<close>, \<^verbatim>\<open>Optimal\<close>, \<^verbatim>\<open>Infeasible\<close>, \<^verbatim>\<open>Unbounded\<close> and
  \<^verbatim>\<open>Undefined\<close>. A run that the time limit stops with an incumbent is reported with
  the status \<^verbatim>\<open>Optimal\<close>, as a proven optimum is.
\<close>

record solver_result =
  lp_status :: string
  varValue :: "var \<Rightarrow> real option"
  elapsed :: real

type_synonym solver = "lp_problem \<Rightarrow> solver_result"

record run =
  printed :: "event list"
  self_after :: optimizer
  returned :: "py_error + solution option"

text \<open>
  The inner loop over the pumps at hour \<open>t\<close>: \<^verbatim>\<open>status_val > 0.5\<close> raises
  \<^verbatim>\<open>TypeError\<close> on \<^verbatim>\<open>None\<close>. The state is \<^verbatim>\<open>(pumps_active, pumps_status)\<close>.
\<close>

definition pump_states ::
  "optimizer \<Rightarrow> (var \<Rightarrow> real option) \<Rightarrow> nat \<Rightarrow> py_error + (string list \<times> (string \<times> string) list)" where
  "pump_states self vals t =
     for_each (pumps self) (\<lambda>st p.
        case vals (Pump_status (pump_id p) t) of
          None \<Rightarrow> Inl TypeError
        | Some status_val \<Rightarrow>
            Inr (if status_val > 0.5 then fst st @ [pump_id p] else fst st,
                 AList.update (pump_id p) (if status_val > 0.5 then ''ON'' else ''OFF'') (snd st)))
       ([], [])"

text \<open>
  One iteration of the extraction loop: the record of hour \<open>t\<close>.
  \<^verbatim>\<open>total_power[t].varValue * tariff\<close> raises \<^verbatim>\<open>TypeError\<close> on \<^verbatim>\<open>None\<close>;
  a penalty that is \<^verbatim>\<open>None\<close> or zero is reported as 0.
\<close>

definition extract_hour :: "optimizer \<Rightarrow> (var \<Rightarrow> real option) \<Rightarrow> nat \<Rightarrow> py_error + hour_data" where
  "extract_hour self vals t =
     (if \<not> t < length (demand self) then Inl IndexError
      else
        let penalty_v = (case vals (Penalty t) of None \<Rightarrow> 0 | Some v \<Rightarrow> if v \<noteq> 0 then v else 0);
            tariff_v = (if 7 \<le> t \<and> t < 23 then peak (tariff self) else offpeak (tariff self))
        in and_then (pump_states self vals t) (\<lambda>st.
             case vals (Total_power t) of
               None \<Rightarrow> Inl TypeError
             | Some power_v \<Rightarrow>
                 Inr \<lparr>hour = t,
                      demand_m3h = demand self ! t,
                      total_power_kw = power_v,
                      penalty_fcfa = penalty_v,
                      tariff_fcfa_kwh = tariff_v,
                      pumps_active = fst st,
                      pumps_status = snd st,
                      energy_cost_fcfa = power_v * tariff_v,
                      total_cost_fcfa = power_v * tariff_v + penalty_v\<rparr>))"

text \<open>
  The extraction loop with its four accumulators
  \<^verbatim>\<open>(schedule, total_cost_optimized, total_energy, total_penalties)\<close>.
\<close>

definition extract_schedule ::
  "optimizer \<Rightarrow> (var \<Rightarrow> real option) \<Rightarrow> int \<Rightarrow> py_error + (hour_data list \<times> real \<times> real \<times> real)" where
  "extract_schedule self vals horizon_hours =
     for_each (range_py horizon_hours) (\<lambda>acc t.
        and_then (extract_hour self vals t) (\<lambda>hour_rec.
          case acc of (sched, cost, energy, penalties) \<Rightarrow>
            Inr (sched @ [hour_rec], cost + total_cost_fcfa hour_rec,
                 energy + total_power_kw hour_rec, penalties + penalty_fcfa hour_rec)))
       ([], 0, 0, 0)"

definition optimize_schedule :: "solver \<Rightarrow> optimizer \<Rightarrow> int \<Rightarrow> run" where
  "optimize_schedule solve self requested =
     (let short = (int (length (demand self)) < requested);
          horizon_hours = (if short then int (length (demand self)) else requested);
          out0 = (if short then [Warn_demand_short (length (demand self))] else []);
          built = build_optimization_problem self horizon_hours;
          out1 = out0 @ fst built
      in case snd built of
           Inl e \<Rightarrow> \<lparr>printed = out1, self_after = self, returned = Inl e\<rparr>
         | Inr prob \<Rightarrow>
            (let res = solve prob;
                 out2 = out1 @ [Msg_solver_launch, Msg_status (lp_status res)]
             in if lp_status res \<noteq> ''Optimal''
                then \<lparr>printed = out2 @ [Warn_not_optimal]
                          @ (if lp_status res = ''Infeasible'' then [Msg_infeasible]
                             else if lp_status res = ''Unbounded'' then [Msg_unbounded]
                             else []),
                      self_after = self, returned = Inr None\<rparr>
                else
                 (case extract_schedule self (varValue res) horizon_hours of
                    Inl e \<Rightarrow> \<lparr>printed = out2, self_after = self, returned = Inl e\<rparr>
                  | Inr (sched, total_cost_optimized, total_energy_v, total_penalties_v) \<Rightarrow>
                     (let sol = \<lparr>schedule = sched,
                                 total_cost = total_cost_optimized,
                                 total_energy = total_energy_v,
                                 total_penalties = total_penalties_v,
                                 status = lp_status res,
                                 solve_time = elapsed res\<rparr>;
                          self' = self\<lparr>solution := Some sol\<rparr>;
                          out3 = out2 @ [Msg_optimized_cost total_cost_optimized,
                                         Msg_energy total_energy_v]
                      in (case py_div total_penalties_v total_cost_optimized of
                            Inl e \<Rightarrow> \<lparr>printed = out3, self_after = self', returned = Inl e\<rparr>
                          | Inr share \<Rightarrow>
                              \<lparr>printed = out3 @ [Msg_penalties total_penalties_v (share * 100)],
                               self_after = self', returned = Inr (Some sol)\<rparr>)))))"


section \<open>\<^verbatim>\<open>compare_baseline_vs_optimized\<close>\<close>

text \<open>
  The baseline is a pandas DataFrame, one row per record, with the columns the method
  reads (\<^verbatim>\<open>total_cost_fcfa\<close>, \<^verbatim>\<open>power_kw\<close>, \<^verbatim>\<open>penalty_fcfa\<close>) and the time of the
  record in hours since the first one. A column \<^verbatim>\<open>.sum()\<close> is a numpy scalar, so the
  divisions below are numpy's and do not raise.
\<close>

record baseline_row =
  timestamp :: nat
  bl_total_cost_fcfa :: real
  bl_power_kw :: real
  bl_penalty_fcfa :: real

record comparison =
  baseline_cost :: real
  optimized_cost :: real
  savings_fcfa :: real
  savings_percent :: np_float
  energy_savings_kwh :: real
  penalty_reduction :: real
  monthly_savings_projection :: np_float
  annual_savings_projection :: np_float
  cmp_schedule :: "hour_data list"

definition compare_baseline_vs_optimized ::
  "optimizer \<Rightarrow> baseline_row list \<Rightarrow> event list \<times> comparison option" where
  "compare_baseline_vs_optimized self baseline_data =
     (case solution self of
        None \<Rightarrow> ([Msg_no_solution], None)
      | Some sol \<Rightarrow>
         (let horizon = length (schedule sol);
              baseline_subset = take (horizon * length (pumps self)) baseline_data;
              baseline_cost_v = sum_list (map bl_total_cost_fcfa baseline_subset);
              baseline_energy = sum_list (map bl_power_kw baseline_subset);
              baseline_penalties = sum_list (map bl_penalty_fcfa baseline_subset);
              optimized_cost_v = total_cost sol;
              optimized_energy = total_energy sol;
              optimized_penalties = total_penalties sol;
              cost_savings = baseline_cost_v - optimized_cost_v;
              cost_savings_pct = np_mul (np_div cost_savings baseline_cost_v) 100;
              energy_savings = baseline_energy - optimized_energy;
              energy_savings_pct = np_mul (np_div energy_savings baseline_energy) 100;
              penalty_savings = baseline_penalties - optimized_penalties;
              penalty_savings_pct =
                (if baseline_penalties > 0
                 then np_mul (np_div penalty_savings baseline_penalties) 100 else Fin 0);
              hours_per_month = 720;
              monthly_savings = np_mul (np_div cost_savings (real horizon)) hours_per_month;
              annual_savings = np_mul monthly_savings 12
          in ([Msg_costs baseline_cost_v optimized_cost_v cost_savings cost_savings_pct,
               Msg_energies baseline_energy optimized_energy energy_savings energy_savings_pct,
               Msg_penalty_reduction baseline_penalties optimized_penalties penalty_savings
                 penalty_savings_pct,
               Msg_projection monthly_savings annual_savings],
              Some \<lparr>baseline_cost = baseline_cost_v,
                    optimized_cost = optimized_cost_v,
                    savings_fcfa = cost_savings,
                    savings_percent = cost_savings_pct,
                    energy_savings_kwh = energy_savings,
                    penalty_reduction = penalty_savings,
                    monthly_savings_projection = monthly_savings,
                    annual_savings_projection = annual_savings,
                    cmp_schedule = schedule sol\<rparr>)))"


section \<open>The wording of the specification\<close>


text \<open>
  The specification's baseline window: the baseline truncated to the optimized horizon,
  that is, the records of its first \<open>H\<close> hours.
\<close>

definition spec_baseline_window :: "nat \<Rightarrow> baseline_row list \<Rightarrow> baseline_row list" where
  "spec_baseline_window H rows = filter (\<lambda>r. timestamp r < H) rows"


section \<open>Concrete inputs\<close>

text \<open>
  The demonstration's tariff and its first two pumps; a two-hour forecast with an
  assignment that starts the pump in the second hour.
\<close>

definition demo_tariff :: tariff_config where
  "demo_tariff = \<lparr>peak = 110, offpeak = 75, subscribed_power = 150, penalty_rate = 200\<rparr>"

definition pump_P1 :: pump_config where
  "pump_P1 = \<lparr>pump_id = ''P1'', capacity_m3h = 60, power_kw = 45\<rparr>"

definition pump_P2 :: pump_config where
  "pump_P2 = \<lparr>pump_id = ''P2'', capacity_m3h = 50, power_kw = 38\<rparr>"

definition self1 :: optimizer where
  "self1 = \<lparr>demand = [0, 10], pumps = [pump_P1], tariff = demo_tariff, solution = None\<rparr>"

definition a1 :: "var \<Rightarrow> real" where
  "a1 v = (case v of
      Pump_status i t \<Rightarrow> (if t = 1 then 1 else 0)
    | Total_power t \<Rightarrow> (if t = 1 then 45 else 0)
    | Penalty t \<Rightarrow> 0
    | Startup i t \<Rightarrow> (if t = 1 then 1 else 0))"

text \<open>
  Solvers that answer with this assignment, as the proven optimum after one second or
  as the incumbent when the time limit of 60 seconds stops the run, and the schedule
  extracted from it.
\<close>

definition solver_opt1 :: solver where
  "solver_opt1 prob = \<lparr>lp_status = ''Optimal'', varValue = (\<lambda>v. Some (a1 v)), elapsed = 1\<rparr>"

definition solver_incumbent1 :: solver where
  "solver_incumbent1 prob = \<lparr>lp_status = ''Optimal'', varValue = (\<lambda>v. Some (a1 v)), elapsed = 60\<rparr>"

definition schedule1 :: "hour_data list" where
  "schedule1 =
     [\<lparr>hour = 0, demand_m3h = 0, total_power_kw = 0, penalty_fcfa = 0, tariff_fcfa_kwh = 75,
       pumps_active = [], pumps_status = [(''P1'', ''OFF'')],
       energy_cost_fcfa = 0, total_cost_fcfa = 0\<rparr>,
      \<lparr>hour = 1, demand_m3h = 10, total_power_kw = 45, penalty_fcfa = 0, tariff_fcfa_kwh = 75,
       pumps_active = [''P1''], pumps_status = [(''P1'', ''ON'')],
       energy_cost_fcfa = 3375, total_cost_fcfa = 3375\<rparr>]"

definition solution1 :: solution where
  "solution1 = \<lparr>schedule = schedule1, total_cost = 3375, total_energy = 45,
                 total_penalties = 0, status = ''Optimal'', solve_time = 1\<rparr>"

definition solution_incumbent1 :: solution where
  "solution_incumbent1 = \<lparr>schedule = schedule1, total_cost = 3375, total_energy = 45,
                 total_penalties = 0, status = ''Optimal'', solve_time = 60\<rparr>"

text \<open>
  A fleet without pumps with a solver that reports infeasibility; a forecast without
  demand with a solver that leaves everything off.
\<close>

definition self_no_pumps :: optimizer where
  "self_no_pumps = \<lparr>demand = [0, 10], pumps = [], tariff = demo_tariff, solution = None\<rparr>"

definition solver_infeasible :: solver where
  "solver_infeasible prob = \<lparr>lp_status = ''Infeasible'', varValue = (\<lambda>v. None), elapsed = 1\<rparr>"

definition self_zero :: optimizer where
  "self_zero = \<lparr>demand = [0, 0], pumps = [pump_P1], tariff = demo_tariff, solution = None\<rparr>"

definition solver_zero :: solver where
  "solver_zero prob = \<lparr>lp_status = ''Optimal'', varValue = (\<lambda>v. Some 0), elapsed = 1\<rparr>"

definition schedule_zero :: "hour_data list" where
  "schedule_zero =
     [\<lparr>hour = 0, demand_m3h = 0, total_power_kw = 0, penalty_fcfa = 0, tariff_fcfa_kwh = 75,
       pumps_active = [], pumps_status = [(''P1'', ''OFF'')],
       energy_cost_fcfa = 0, total_cost_fcfa = 0\<rparr>,
      \<lparr>hour = 1, demand_m3h = 0, total_power_kw = 0, penalty_fcfa = 0, tariff_fcfa_kwh = 75,
       pumps_active = [], pumps_status = [(''P1'', ''OFF'')],
       energy_cost_fcfa = 0, total_cost_fcfa = 0\<rparr>]"

definition solution_zero :: solution where
  "solution_zero = \<lparr>schedule = schedule_zero, total_cost = 0, total_energy = 0,
                 total_penalties = 0, status = ''Optimal'', solve_time = 1\<rparr>"

text \<open>
  A two-day horizon without demand, and an assignment that runs the pump on every even
  hour of the second day.
\<close>

definition self48 :: optimizer where
  "self48 = \<lparr>demand = replicate 48 0, pumps = [pump_P1], tariff = demo_tariff, solution = None\<rparr>"

definition a48 :: "var \<Rightarrow> real" where
  "a48 v = (case v of
      Pump_status i t \<Rightarrow> (if 24 \<le> t \<and> even t then 1 else 0)
    | Total_power t \<Rightarrow> (if 24 \<le> t \<and> even t then 45 else 0)
    | Penalty t \<Rightarrow> 0
    | Startup i t \<Rightarrow> (if 24 \<le> t \<and> even t then 1 else 0))"

definition solver48 :: solver where
  "solver48 prob = \<lparr>lp_status = ''Optimal'', varValue = (\<lambda>v. Some (a48 v)), elapsed = 1\<rparr>"

definition schedule48 :: "hour_data list" where
  "schedule48 = map (\<lambda>t.
      \<lparr>hour = t, demand_m3h = 0,
       total_power_kw = (if 24 \<le> t \<and> even t then 45 else 0),
       penalty_fcfa = 0,
       tariff_fcfa_kwh = (if 7 \<le> t \<and> t < 23 then 110 else 75),
       pumps_active = (if 24 \<le> t \<and> even t then [''P1''] else []),
       pumps_status = [(''P1'', if 24 \<le> t \<and> even t then ''ON'' else ''OFF'')],
       energy_cost_fcfa = (if 24 \<le> t \<and> even t then 45 else 0) * (if 7 \<le> t \<and> t < 23 then 110 else 75),
       total_cost_fcfa = (if 24 \<le> t \<and> even t then 45 else 0) * (if 7 \<le> t \<and> t < 23 then 110 else 75) + 0\<rparr>)
     [0..<48]"

definition solution48 :: solution where
  "solution48 = \<lparr>schedule = schedule48, total_cost = 40500, total_energy = 540,
                  total_penalties = 0, status = ''Optimal'', solve_time = 1\<rparr>"

text \<open>
  Two pumps and one hour, with the first pump on; a baseline with one record per hour,
  one with a record per pump and hour, and one of an idle installation.
\<close>

definition self2 :: optimizer where
  "self2 = \<lparr>demand = [10], pumps = [pump_P1, pump_P2], tariff = demo_tariff, solution = None\<rparr>"

definition a2 :: "var \<Rightarrow> real" where
  "a2 v = (case v of
      Pump_status i t \<Rightarrow> (if i = ''P1'' then 1 else 0)
    | Total_power t \<Rightarrow> 45
    | Penalty t \<Rightarrow> 0
    | Startup i t \<Rightarrow> 0)"

definition solver_opt2 :: solver where
  "solver_opt2 prob = \<lparr>lp_status = ''Optimal'', varValue = (\<lambda>v. Some (a2 v)), elapsed = 1\<rparr>"

definition solution2 :: solution where
  "solution2 =
     \<lparr>schedule =
        [\<lparr>hour = 0, demand_m3h = 10, total_power_kw = 45, penalty_fcfa = 0,
          tariff_fcfa_kwh = 75, pumps_active = [''P1''],
          pumps_status = [(''P1'', ''ON''), (''P2'', ''OFF'')],
          energy_cost_fcfa = 3375, total_cost_fcfa = 3375\<rparr>],
      total_cost = 3375, total_energy = 45, total_penalties = 0,
      status = ''Optimal'', solve_time = 1\<rparr>"

definition baseline_hourly :: "baseline_row list" where
  "baseline_hourly =
     [\<lparr>timestamp = 0, bl_total_cost_fcfa = 5000, bl_power_kw = 60, bl_penalty_fcfa = 0\<rparr>,
      \<lparr>timestamp = 1, bl_total_cost_fcfa = 7000, bl_power_kw = 80, bl_penalty_fcfa = 0\<rparr>]"

definition baseline_per_pump :: "baseline_row list" where
  "baseline_per_pump =
     [\<lparr>timestamp = 0, bl_total_cost_fcfa = 3000, bl_power_kw = 40, bl_penalty_fcfa = 0\<rparr>,
      \<lparr>timestamp = 0, bl_total_cost_fcfa = 2000, bl_power_kw = 20, bl_penalty_fcfa = 0\<rparr>,
      \<lparr>timestamp = 1, bl_total_cost_fcfa = 4000, bl_power_kw = 45, bl_penalty_fcfa = 0\<rparr>,
      \<lparr>timestamp = 1, bl_total_cost_fcfa = 3000, bl_power_kw = 35, bl_penalty_fcfa = 0\<rparr>]"

definition baseline_idle :: "baseline_row list" where
  "baseline_idle =
     [\<lparr>timestamp = 0, bl_total_cost_fcfa = 0, bl_power_kw = 0, bl_penalty_fcfa = 0\<rparr>,
      \<lparr>timestamp = 1, bl_total_cost_fcfa = 0, bl_power_kw = 0, bl_penalty_fcfa = 0\<rparr>]"


section \<open>What the formulation loops produce\<close>

lemma and_then_Inr [simp]: "and_then (Inr x) f = f x"
  by (simp add: and_then_def)

lemma and_then_Inl [simp]: "and_then (Inl e) f = Inl e"
  by (simp add: and_then_def)

lemma for_each_append:
  "for_each (xs @ ys) body s = and_then (for_each xs body s) (for_each ys body)"
  by (induction xs arbitrary: s) (auto simp: and_then_def split: sum.splits)

lemma for_each_cong_set:
  "(\<And>s x. x \<in> set xs \<Longrightarrow> body s x = body' s x) \<Longrightarrow> for_each xs body s = for_each xs body' s"
  by (induction xs arbitrary: s) (auto simp: and_then_def split: sum.splits)

lemma for_each_add:
  "for_each xs (\<lambda>prob x. addConstraint prob (f x)) prob =
     (if distinct (map (\<lambda>x. fst (f x)) xs) \<and>
         (\<forall>x \<in> set xs. fst (f x) \<notin> fst ` set (constraints prob))
      then Inr (prob\<lparr>constraints := constraints prob @ map f xs\<rparr>)
      else Inl PulpError)"
proof (induction xs arbitrary: prob)
  case Nil
  then show ?case by simp
next
  case (Cons x xs)
  show ?case
  proof (cases "fst (f x) \<in> fst ` set (constraints prob)")
    case True
    then show ?thesis by (simp add: addConstraint_def)
  next
    case False
    then have "addConstraint prob (f x) = Inr (prob\<lparr>constraints := constraints prob @ [f x]\<rparr>)"
      by (simp add: addConstraint_def)
    then show ?thesis using False
      by (simp add: Cons.IH image_Un) (auto simp: image_iff; metis)
  qed
qed

lemma for_each_nested:
  "for_each ps (\<lambda>prob p. for_each ts (\<lambda>prob t. addConstraint prob (g p t)) prob) prob =
   for_each (concat (map (\<lambda>p. map (Pair p) ts) ps)) (\<lambda>prob pt. addConstraint prob (g (fst pt) (snd pt))) prob"
proof (induction ps arbitrary: prob)
  case Nil
  then show ?case by simp
next
  case (Cons p ps)
  have inner: "for_each (map (Pair p) ts) (\<lambda>prob pt. addConstraint prob (g (fst pt) (snd pt))) q
      = for_each ts (\<lambda>prob t. addConstraint prob (g p t)) q" for q
    by (induction ts arbitrary: q) (auto simp: and_then_def split: sum.splits)
  show ?case
    by (simp add: for_each_append inner Cons.IH and_then_def split: sum.splits)
qed

lemma for_each_nested_add:
  "for_each ps (\<lambda>prob p. for_each ts (\<lambda>prob t. addConstraint prob (g p t)) prob) prob =
     (if distinct (map fst (concat (map (\<lambda>p. map (g p) ts) ps))) \<and>
         (\<forall>x \<in> set (concat (map (\<lambda>p. map (g p) ts) ps)). fst x \<notin> fst ` set (constraints prob))
      then Inr (prob\<lparr>constraints := constraints prob @ concat (map (\<lambda>p. map (g p) ts) ps)\<rparr>)
      else Inl PulpError)"
proof -
  have m: "map (\<lambda>pt. g (fst pt) (snd pt)) (concat (map (\<lambda>p. map (Pair p) ts) ps))
         = concat (map (\<lambda>p. map (g p) ts) ps)"
    by (simp add: map_concat comp_def)
  have d: "map (\<lambda>x. fst (g (fst x) (snd x))) (concat (map (\<lambda>p. map (Pair p) ts) ps))
         = map fst (concat (map (\<lambda>p. map (g p) ts) ps))"
    by (simp add: map_concat comp_def)
  have s: "(\<forall>x \<in> set (concat (map (\<lambda>p. map (Pair p) ts) ps)). fst (g (fst x) (snd x)) \<notin> fst ` set (constraints prob))
      = (\<forall>x \<in> set (concat (map (\<lambda>p. map (g p) ts) ps)). fst x \<notin> fst ` set (constraints prob))"
    by auto
  have "for_each ps (\<lambda>prob p. for_each ts (\<lambda>prob t. addConstraint prob (g p t)) prob) prob =
        for_each (concat (map (\<lambda>p. map (Pair p) ts) ps))
          (\<lambda>prob pt. addConstraint prob (g (fst pt) (snd pt))) prob"
    by (rule for_each_nested)
  also have "\<dots> = (if distinct (map fst (concat (map (\<lambda>p. map (g p) ts) ps))) \<and>
         (\<forall>x \<in> set (concat (map (\<lambda>p. map (g p) ts) ps)). fst x \<notin> fst ` set (constraints prob))
      then Inr (prob\<lparr>constraints := constraints prob @ concat (map (\<lambda>p. map (g p) ts) ps)\<rparr>)
      else Inl PulpError)"
    using for_each_add[of "concat (map (\<lambda>p. map (Pair p) ts) ps)" "\<lambda>pt. g (fst pt) (snd pt)" prob]
    unfolding m d s .
  finally show ?thesis .
qed

lemma fst_names [simp]:
  "fst (demand_satisfaction self t) = Demand_satisfaction t"
  "fst (total_power_calc self t) = Total_power_calc t"
  "fst (penalty_calc self t) = Penalty_calc t"
  "fst (startup_detect p t) = Startup_detect (pump_id p) t"
  "fst (max_startups h p) = Max_startups (pump_id p)"
  by (simp_all add: demand_satisfaction_def total_power_calc_def penalty_calc_def
        startup_detect_def max_startups_def)

lemma demand_loop_short:
  assumes "length d < n"
  shows "for_each [0..<n] (\<lambda>prob t. if t < length d then addConstraint prob (f t) else Inl IndexError) prob
       = (case for_each [0..<length d] (\<lambda>prob t. addConstraint prob (f t)) prob of
            Inl e \<Rightarrow> Inl e | Inr q \<Rightarrow> Inl IndexError)"
proof -
  have split: "[0..<n] = [0..<length d] @ (length d # [Suc (length d)..<n])"
  proof -
    have "[0..<n] = [0..<length d] @ [length d..<n]"
      using upt_add_eq_append[of 0 "length d" "n - length d"] assms by simp
    moreover have "[length d..<n] = length d # [Suc (length d)..<n]"
      using assms by (simp add: upt_conv_Cons)
    ultimately show ?thesis by simp
  qed
  have first: "for_each [0..<length d] (\<lambda>prob t. if t < length d then addConstraint prob (f t) else Inl IndexError) q
      = for_each [0..<length d] (\<lambda>prob t. addConstraint prob (f t)) q" for q
    by (rule for_each_cong_set) simp
  show ?thesis
    unfolding split for_each_append first
    by (simp add: and_then_def split: sum.splits)
qed

lemma demand_loop_long:
  assumes "n \<le> length d"
  shows "for_each [0..<n] (\<lambda>prob t. if t < length d then addConstraint prob (f t) else Inl IndexError) prob
       = for_each [0..<n] (\<lambda>prob t. addConstraint prob (f t)) prob"
  using assms by (intro for_each_cong_set) simp

lemma names_disjoint [simp]:
  "Total_power_calc t \<notin> fst ` demand_satisfaction self ` A"
  "Penalty_calc t \<notin> fst ` demand_satisfaction self ` A"
  "Penalty_calc t \<notin> fst ` total_power_calc self ` A"
  "Startup_detect i t \<notin> fst ` demand_satisfaction self ` A"
  "Startup_detect i t \<notin> fst ` total_power_calc self ` A"
  "Startup_detect i t \<notin> fst ` penalty_calc self ` A"
  "Max_startups i \<notin> fst ` demand_satisfaction self ` A"
  "Max_startups i \<notin> fst ` total_power_calc self ` A"
  "Max_startups i \<notin> fst ` penalty_calc self ` A"
  "Max_startups i \<notin> fst ` startup_detect p ` B"
  by (auto simp: image_iff)

lemma startup_names_conv:
  "map fst (concat (map (\<lambda>p. map (startup_detect p) ts) ps))
   = concat (map (\<lambda>p. map (Startup_detect (pump_id p)) ts) ps)"
  by (induction ps) (simp_all add: comp_def)

lemma startup_names_mem:
  "x \<in> set (concat (map (\<lambda>p. map (Startup_detect (pump_id p)) ts) ps)) \<Longrightarrow>
   \<exists>q t. q \<in> set ps \<and> x = Startup_detect (pump_id q) t"
  by (induction ps) auto

lemma distinct_startup_detect:
  assumes "distinct ts"
  shows "distinct (map pump_id ps) \<Longrightarrow>
   distinct (map fst (concat (map (\<lambda>p. map (startup_detect p) ts) ps)))"
  unfolding startup_names_conv
proof (induction ps)
  case Nil
  then show ?case by simp
next
  case (Cons p ps)
  have a: "distinct (map (Startup_detect (pump_id p)) ts)"
    using assms by (simp add: distinct_map inj_on_def)
  have b: "distinct (concat (map (\<lambda>p. map (Startup_detect (pump_id p)) ts) ps))"
    using Cons by simp
  have c: "set (map (Startup_detect (pump_id p)) ts) \<inter>
           set (concat (map (\<lambda>p. map (Startup_detect (pump_id p)) ts) ps)) = {}"
  proof (rule ccontr)
    assume "\<not> ?thesis"
    then obtain x where x: "x \<in> set (map (Startup_detect (pump_id p)) ts)"
      "x \<in> set (concat (map (\<lambda>p. map (Startup_detect (pump_id p)) ts) ps))" by blast
    from startup_names_mem[OF x(2)] obtain q t where "q \<in> set ps" "x = Startup_detect (pump_id q) t"
      by blast
    moreover from x(1) obtain t' where "x = Startup_detect (pump_id p) t'" by auto
    ultimately have "pump_id p \<in> pump_id ` set ps" by auto
    with Cons.prems show False by simp
  qed
  show ?case using a b c by simp
qed

lemma build_result:
  "snd (build_optimization_problem self h) =
     (if length (demand self) < nat h then Inl IndexError
      else if \<not> distinct (map pump_id (pumps self)) then Inl PulpError
      else Inr (formulated self h))"
proof -
  define hours where "hours = [0..<nat h]"
  define p0 where "p0 = \<lparr>direction = LpMinimize, objective = objective_expr self hours,
                  constraints = [], variables = declared_variables self hours\<rparr>"
  define c1 where "c1 = map (demand_satisfaction self) hours"
  define c2 where "c2 = c1 @ map (total_power_calc self) hours"
  define c3 where "c3 = c2 @ map (penalty_calc self) hours"
  define sd where "sd = concat (map (\<lambda>p. map (startup_detect p) (range_from1 h)) (pumps self))"
  define c4 where "c4 = c3 @ sd"
  define c5 where "c5 = c4 @ map (max_startups h) (pumps self)"
  have dh: "distinct hours" by (simp add: hours_def)
  have l1: "for_each hours (\<lambda>prob t. addConstraint prob (demand_satisfaction self t)) p0
          = Inr (p0\<lparr>constraints := c1\<rparr>)"
    by (subst for_each_add) (simp add: p0_def c1_def distinct_map inj_on_def dh)
  have l2: "for_each hours (\<lambda>prob t. addConstraint prob (total_power_calc self t))
             (p0\<lparr>constraints := c1\<rparr>) = Inr (p0\<lparr>constraints := c2\<rparr>)"
    by (subst for_each_add) (simp add: c1_def c2_def distinct_map inj_on_def dh)
  have l3: "for_each hours (\<lambda>prob t. addConstraint prob (penalty_calc self t))
             (p0\<lparr>constraints := c2\<rparr>) = Inr (p0\<lparr>constraints := c3\<rparr>)"
    by (subst for_each_add) (simp add: c1_def c2_def c3_def distinct_map inj_on_def dh image_Un)
  have k3: "(\<exists>t. fst x = Demand_satisfaction t) \<or> (\<exists>t. fst x = Total_power_calc t) \<or>
            (\<exists>t. fst x = Penalty_calc t)" if "x \<in> set c3" for x
    using that by (auto simp: c3_def c2_def c1_def)
  have ksd: "\<exists>i t. fst x = Startup_detect i t" if "x \<in> set sd" for x
    using that by (auto simp: sd_def)
  have sd_disj: "\<forall>x \<in> set sd. fst x \<notin> fst ` set c3"
  proof (intro ballI notI)
    fix x assume "x \<in> set sd" "fst x \<in> fst ` set c3"
    then obtain y where "y \<in> set c3" "fst x = fst y" by auto
    with ksd[OF \<open>x \<in> set sd\<close>] k3[of y] show False by auto
  qed
  have l4: "for_each (pumps self) (\<lambda>prob p.
                for_each (range_from1 h) (\<lambda>prob t.
                  addConstraint prob (startup_detect p t)) prob) (p0\<lparr>constraints := c3\<rparr>)
          = (if distinct (map fst sd) then Inr (p0\<lparr>constraints := c4\<rparr>) else Inl PulpError)"
    by (subst for_each_nested_add) (use sd_disj in \<open>simp add: sd_def [symmetric] c4_def\<close>)
  have ms_disj: "\<forall>p \<in> set (pumps self). Max_startups (pump_id p) \<notin> fst ` set c4"
  proof (intro ballI notI)
    fix p :: pump_config assume "Max_startups (pump_id p) \<in> fst ` set c4"
    then obtain y where "y \<in> set c3 \<or> y \<in> set sd" "Max_startups (pump_id p) = fst y"
      by (auto simp: c4_def)
    with ksd[of y] k3[of y] show False by auto
  qed
  have dm: "distinct (map (\<lambda>x. Max_startups (pump_id x)) (pumps self))
          = distinct (map pump_id (pumps self))"
    using distinct_map[of Max_startups "map pump_id (pumps self)"]
    by (simp add: comp_def inj_on_def)
  have l5: "for_each (pumps self) (\<lambda>prob p. addConstraint prob (max_startups h p))
             (p0\<lparr>constraints := c4\<rparr>)
          = (if distinct (map pump_id (pumps self)) then Inr (p0\<lparr>constraints := c5\<rparr>)
             else Inl PulpError)"
    by (subst for_each_add) (use ms_disj in \<open>simp add: c5_def dm\<close>)
  have dsd: "distinct (map pump_id (pumps self)) \<Longrightarrow> distinct (map fst sd)"
    unfolding sd_def by (intro distinct_startup_detect) (simp_all add: range_from1_def)
  have form: "formulated self h = p0\<lparr>constraints := c5\<rparr>"
    by (simp add: formulated_def p0_def c5_def c4_def c3_def c2_def c1_def sd_def hours_def range_py_def)
  have unf: "snd (build_optimization_problem self h) =
            and_then (for_each hours (\<lambda>prob t.
                if t < length (demand self)
                then addConstraint prob (demand_satisfaction self t)
                else Inl IndexError) p0) (\<lambda>prob.
            and_then (for_each hours (\<lambda>prob t.
                addConstraint prob (total_power_calc self t)) prob) (\<lambda>prob.
            and_then (for_each hours (\<lambda>prob t.
                addConstraint prob (penalty_calc self t)) prob) (\<lambda>prob.
            and_then (for_each (pumps self) (\<lambda>prob p.
                for_each (range_from1 h) (\<lambda>prob t.
                  addConstraint prob (startup_detect p t)) prob) prob) (\<lambda>prob.
            for_each (pumps self) (\<lambda>prob p.
                addConstraint prob (max_startups h p)) prob))))"
    by (simp add: build_optimization_problem_def Let_def range_py_def hours_def p0_def)
  show ?thesis
  proof (cases "length (demand self) < nat h")
    case True
    have "for_each hours (\<lambda>prob t.
                if t < length (demand self)
                then addConstraint prob (demand_satisfaction self t)
                else Inl IndexError) p0 = Inl IndexError"
      unfolding hours_def
      by (subst demand_loop_short[OF True], subst for_each_add)
         (simp add: p0_def distinct_map inj_on_def)
    then show ?thesis using True by (simp add: unf)
  next
    case False
    then have "for_each hours (\<lambda>prob t.
                if t < length (demand self)
                then addConstraint prob (demand_satisfaction self t)
                else Inl IndexError) p0 = Inr (p0\<lparr>constraints := c1\<rparr>)"
      unfolding hours_def using l1[unfolded hours_def]
      by (subst demand_loop_long) simp_all
    then show ?thesis using False dsd
      by (simp add: unf l2 l3 l4 l5 form)
  qed
qed


lemma build_Inr:
  "snd (build_optimization_problem self h) = Inr prob \<Longrightarrow> prob = formulated self h"
  by (simp add: build_result split: if_splits)

lemma build_Inr_len:
  "snd (build_optimization_problem self h) = Inr prob \<Longrightarrow> nat h \<le> length (demand self)"
  by (simp add: build_result split: if_splits)

lemma feasible_constraint:
  "feasible prob a \<Longrightarrow> nc \<in> set (constraints prob) \<Longrightarrow> holds a (snd nc)"
  by (simp add: feasible_def list_all_iff)

lemma feasible_variable:
  "feasible prob a \<Longrightarrow> x \<in> set (variables prob) \<Longrightarrow> in_domain a x"
  by (simp add: feasible_def list_all_iff)

lemmas formulation_defs =
  feasible_def formulated_def declared_variables_def Let_def range_py_def range_from1_def
  in_domain_def LpVariable_def objective_expr_def demand_satisfaction_def
  total_power_calc_def penalty_calc_def startup_detect_def max_startups_def


lemma sum_list_single:
  "distinct xs \<Longrightarrow> x \<in> set xs \<Longrightarrow> (\<Sum>y\<leftarrow>xs. if y = x then f y else (0::real)) = f x"
proof (induction xs)
  case Nil
  then show ?case by simp
next
  case (Cons y ys)
  have z: "x \<notin> set ys \<Longrightarrow> (\<Sum>y\<leftarrow>ys. if y = x then f y else 0) = 0"
    by (induction ys) auto
  from Cons show ?case
    by (cases "y = x") (auto simp: z)
qed

lemma coeff_objective:
  assumes "distinct hours" "t \<in> set hours"
  shows "coeff (objective_expr self hours) (Total_power t) =
         (if 7 \<le> t \<and> t < 23 then peak (tariff self) else offpeak (tariff self))"
proof -
  have hour_term: "coeff (Plus (Plus (Scale c (V (Total_power y))) (V (Penalty y)))
                 (LpSum (map (\<lambda>p. Scale 5000 (V (Startup (pump_id p) y))) ps))) (Total_power t)
        = (if y = t then c else 0)" for c y and ps :: "pump_config list"
    by (simp add: comp_def)
  have "coeff (objective_expr self hours) (Total_power t) =
        (\<Sum>y\<leftarrow>hours. if y = t then (if 7 \<le> y \<and> y < 23 then peak (tariff self) else offpeak (tariff self)) else 0)"
    unfolding objective_expr_def coeff.simps(6) map_map comp_def hour_term ..
  then show ?thesis
    using sum_list_single[OF assms] by simp
qed

lemma build_printed:
  "fst (build_optimization_problem self h) =
     [Msg_construction h (length (pumps self)), Msg_objective_defined]
     @ (case snd (build_optimization_problem self h) of
          Inl e \<Rightarrow> []
        | Inr p \<Rightarrow> [Msg_constraints_added (length (constraints p))])"
  by (simp add: build_optimization_problem_def Let_def)


section \<open>Extraction and the outcomes of \<^verbatim>\<open>optimize_schedule\<close>\<close>

lemma extract_loop_Inr:
  "for_each ts (\<lambda>acc t.
        and_then (extract_hour self vals t) (\<lambda>hour_rec.
          case acc of (sched, cost, energy, penalties) \<Rightarrow>
            Inr (sched @ [hour_rec], cost + total_cost_fcfa hour_rec,
                 energy + total_power_kw hour_rec, penalties + penalty_fcfa hour_rec))) (s0, c0, e0, p0) = Inr (s, c, e, p) \<Longrightarrow>
   \<exists>hs. map (extract_hour self vals) ts = map Inr hs \<and> s = s0 @ hs
      \<and> c = c0 + sum_list (map total_cost_fcfa hs)
      \<and> e = e0 + sum_list (map total_power_kw hs)
      \<and> p = p0 + sum_list (map penalty_fcfa hs)"
proof (induction ts arbitrary: s0 c0 e0 p0)
  case Nil
  then show ?case by simp
next
  case (Cons t ts)
  from Cons.prems obtain r0 where r0: "extract_hour self vals t = Inr r0"
    by (cases "extract_hour self vals t") simp_all
  with Cons.prems have "for_each ts (\<lambda>acc t.
        and_then (extract_hour self vals t) (\<lambda>hour_rec.
          case acc of (sched, cost, energy, penalties) \<Rightarrow>
            Inr (sched @ [hour_rec], cost + total_cost_fcfa hour_rec,
                 energy + total_power_kw hour_rec, penalties + penalty_fcfa hour_rec)))
        (s0 @ [r0], c0 + total_cost_fcfa r0, e0 + total_power_kw r0, p0 + penalty_fcfa r0)
        = Inr (s, c, e, p)"
    by simp
  from Cons.IH[OF this] obtain hs where
    "map (extract_hour self vals) ts = map Inr hs" "s = (s0 @ [r0]) @ hs"
    "c = c0 + total_cost_fcfa r0 + sum_list (map total_cost_fcfa hs)"
    "e = e0 + total_power_kw r0 + sum_list (map total_power_kw hs)"
    "p = p0 + penalty_fcfa r0 + sum_list (map penalty_fcfa hs)"
    by blast
  then show ?case
    using r0 by (intro exI[of _ "r0 # hs"]) simp
qed

lemma extract_loop_success:
  "map (extract_hour self vals) ts = map Inr hs \<Longrightarrow>
   for_each ts (\<lambda>acc t.
        and_then (extract_hour self vals t) (\<lambda>hour_rec.
          case acc of (sched, cost, energy, penalties) \<Rightarrow>
            Inr (sched @ [hour_rec], cost + total_cost_fcfa hour_rec,
                 energy + total_power_kw hour_rec, penalties + penalty_fcfa hour_rec))) (s0, c0, e0, p0)
     = Inr (s0 @ hs, c0 + sum_list (map total_cost_fcfa hs),
            e0 + sum_list (map total_power_kw hs), p0 + sum_list (map penalty_fcfa hs))"
proof (induction ts arbitrary: hs s0 c0 e0 p0)
  case Nil
  then show ?case by simp
next
  case (Cons t ts)
  then obtain r0 hs' where hs: "hs = r0 # hs'" "extract_hour self vals t = Inr r0"
      "map (extract_hour self vals) ts = map Inr hs'"
    by (cases hs) auto
  show ?case
    by (simp add: hs Cons.IH[OF hs(3)] add.assoc)
qed

lemma extract_schedule_Inr:
  assumes "extract_schedule self vals h = Inr (s, c, e, p)"
  shows "map (extract_hour self vals) (range_py h) = map Inr s"
    and "c = sum_list (map total_cost_fcfa s)"
    and "e = sum_list (map total_power_kw s)"
    and "p = sum_list (map penalty_fcfa s)"
  using extract_loop_Inr[OF assms[unfolded extract_schedule_def]] by auto

lemma extract_schedule_success:
  "map (extract_hour self vals) (range_py h) = map Inr s \<Longrightarrow>
   extract_schedule self vals h =
     Inr (s, sum_list (map total_cost_fcfa s), sum_list (map total_power_kw s),
          sum_list (map penalty_fcfa s))"
  unfolding extract_schedule_def by (simp add: extract_loop_success)

lemma extract_schedule_length:
  assumes "extract_schedule self vals h = Inr (s, c, e, p)"
  shows "length s = nat h"
proof -
  have "length (map (extract_hour self vals) (range_py h)) = length (map Inr s :: (py_error + hour_data) list)"
    using extract_schedule_Inr(1)[OF assms] by simp
  then show ?thesis by (simp add: range_py_def)
qed

lemma extract_schedule_nth:
  assumes "extract_schedule self vals h = Inr (s, c, e, p)" and "t < nat h"
  shows "extract_hour self vals t = Inr (s ! t)"
proof -
  have len: "length s = nat h" using assms(1) by (rule extract_schedule_length)
  have "map (extract_hour self vals) (range_py h) ! t = map Inr s ! t"
    using extract_schedule_Inr(1)[OF assms(1)] by simp
  then show ?thesis using assms(2) len by (simp add: range_py_def)
qed

lemma eff_horizon:
  "(if int n < h then int n else h) = min h (int n)"
  by (simp add: min_def)

lemma optimize_build_error:
  assumes "snd (build_optimization_problem self (min h (int (length (demand self))))) = Inl e"
  shows "returned (optimize_schedule solve self h) = Inl e"
    and "self_after (optimize_schedule solve self h) = self"
  using assms by (simp_all add: optimize_schedule_def Let_def eff_horizon)

lemma optimize_not_optimal:
  assumes "snd (build_optimization_problem self (min h (int (length (demand self))))) = Inr prob"
    and "lp_status (solve prob) \<noteq> ''Optimal''"
  shows "returned (optimize_schedule solve self h) = Inr None"
    and "self_after (optimize_schedule solve self h) = self"
  using assms by (simp_all add: optimize_schedule_def Let_def eff_horizon)

lemma optimize_optimal:
  assumes "snd (build_optimization_problem self (min h (int (length (demand self))))) = Inr prob"
    and "lp_status (solve prob) = ''Optimal''"
    and "extract_schedule self (varValue (solve prob)) (min h (int (length (demand self)))) = Inr (s, c, e, p)"
  shows "returned (optimize_schedule solve self h) =
           (if c = 0 then Inl ZeroDivisionError
            else Inr (Some \<lparr>schedule = s, total_cost = c, total_energy = e, total_penalties = p,
                            status = ''Optimal'', solve_time = elapsed (solve prob)\<rparr>))"
    and "solution (self_after (optimize_schedule solve self h)) =
           Some \<lparr>schedule = s, total_cost = c, total_energy = e, total_penalties = p,
                            status = ''Optimal'', solve_time = elapsed (solve prob)\<rparr>"
  using assms by (simp_all add: optimize_schedule_def Let_def eff_horizon py_div_def)

lemma optimize_extract_error:
  assumes "snd (build_optimization_problem self (min h (int (length (demand self))))) = Inr prob"
    and "lp_status (solve prob) = ''Optimal''"
    and "extract_schedule self (varValue (solve prob)) (min h (int (length (demand self)))) = Inl err"
  shows "returned (optimize_schedule solve self h) = Inl err"
  using assms by (simp_all add: optimize_schedule_def Let_def eff_horizon)

lemma optimize_returned_Some:
  assumes "returned (optimize_schedule solve self h) = Inr (Some sol)"
  shows "\<exists>prob. snd (build_optimization_problem self (min h (int (length (demand self))))) = Inr prob
          \<and> lp_status (solve prob) = ''Optimal''
          \<and> extract_schedule self (varValue (solve prob)) (min h (int (length (demand self))))
              = Inr (schedule sol, total_cost sol, total_energy sol, total_penalties sol)
          \<and> total_cost sol \<noteq> 0 \<and> status sol = ''Optimal''"
proof (cases "snd (build_optimization_problem self (min h (int (length (demand self)))))")
  case (Inl e)
  from optimize_build_error(1)[where solve = solve, OF this] assms show ?thesis by simp
next
  case (Inr prob)
  show ?thesis
  proof (cases "lp_status (solve prob) = ''Optimal''")
    case False
    from optimize_not_optimal(1)[where solve = solve, OF Inr this] assms show ?thesis by simp
  next
    case True
    show ?thesis
    proof (cases "extract_schedule self (varValue (solve prob)) (min h (int (length (demand self))))")
      case (Inl err)
      from optimize_extract_error[where solve = solve, OF Inr True this] assms show ?thesis by simp
    next
      case ex: (Inr acc)
      obtain s c e p where acc: "acc = (s, c, e, p)" by (cases acc) auto
      from optimize_optimal(1)[where solve = solve, OF Inr True ex[unfolded acc]] assms
      show ?thesis using Inr True ex acc by (auto split: if_splits)
    qed
  qed
qed

lemma extract_hour_fields:
  assumes "extract_hour self vals t = Inr r"
  shows "hour r = t"
    and "demand_m3h r = demand self ! t"
    and "tariff_fcfa_kwh r = (if 7 \<le> t \<and> t < 23 then peak (tariff self) else offpeak (tariff self))"
    and "energy_cost_fcfa r = total_power_kw r * tariff_fcfa_kwh r"
    and "total_cost_fcfa r = energy_cost_fcfa r + penalty_fcfa r"
    and "vals (Total_power t) = Some (total_power_kw r)"
  using assms
  by (auto simp: extract_hour_def Let_def and_then_def split: if_splits sum.splits option.splits)

lemma optimize_launches_solver:
  assumes "snd (build_optimization_problem self (min h (int (length (demand self))))) = Inr prob"
  shows "Msg_solver_launch \<in> set (printed (optimize_schedule solve self h))"
    and "Msg_status (lp_status (solve prob)) \<in> set (printed (optimize_schedule solve self h))"
  using assms
  by (simp_all add: optimize_schedule_def Let_def eff_horizon split: sum.splits prod.splits)

lemma optimize_prints_construction:
  "Msg_construction (min h (int (length (demand self)))) (length (pumps self))
     \<in> set (printed (optimize_schedule solve self h))"
  by (simp add: optimize_schedule_def Let_def eff_horizon build_optimization_problem_def
      split: sum.splits prod.splits)

lemma optimize_truncates:
  assumes "int (length (demand self)) < h"
  shows "printed (optimize_schedule solve self h) =
           Warn_demand_short (length (demand self))
             # printed (optimize_schedule solve self (int (length (demand self))))"
    and "returned (optimize_schedule solve self h) =
           returned (optimize_schedule solve self (int (length (demand self))))"
    and "self_after (optimize_schedule solve self h) =
           self_after (optimize_schedule solve self (int (length (demand self))))"
  using assms
  by (simp_all add: optimize_schedule_def Let_def split: sum.splits prod.splits)

lemma optimize_keeps_inputs:
  "pumps (self_after (optimize_schedule solve self h)) = pumps self"
  "demand (self_after (optimize_schedule solve self h)) = demand self"
  "tariff (self_after (optimize_schedule solve self h)) = tariff self"
  by (simp_all add: optimize_schedule_def Let_def split: sum.splits prod.splits)

lemma filter_prefix:
  "(\<forall>i<length xs. P (xs ! i) = (i < k)) \<Longrightarrow> filter P xs = take k xs"
proof (induction xs arbitrary: k)
  case Nil
  then show ?case by simp
next
  case (Cons x xs)
  show ?case
  proof (cases k)
    case 0
    with Cons.prems have "\<forall>y \<in> set (x # xs). \<not> P y"
      by (metis in_set_conv_nth less_nat_zero_code)
    then show ?thesis using 0 by simp
  next
    case (Suc k')
    from Cons.prems have px: "P x"
      using Suc by auto
    have "\<forall>i<length xs. P (xs ! i) = (i < k')"
      using Cons.prems Suc by auto
    from Cons.IH[OF this] show ?thesis
      using px Suc by simp
  qed
qed


section \<open>The concrete runs\<close>

lemma built1: "snd (build_optimization_problem self1 2) = Inr (formulated self1 2)"
  by (simp add: build_result self1_def pump_P1_def demo_tariff_def a1_def self48_def a48_def)

lemma extract1:
  "extract_schedule self1 (\<lambda>v. Some (a1 v)) 2 = Inr (schedule1, 3375, 45, 0)"
  by (simp add: extract_schedule_def extract_hour_def pump_states_def Let_def range_py_def
      upt_rec self1_def pump_P1_def demo_tariff_def a1_def solver_opt1_def solver_infeasible_def solver_zero_def
      self_no_pumps_def self_zero_def schedule1_def solution1_def schedule_zero_def)

lemma run1:
  "returned (optimize_schedule solver_opt1 self1 h) = Inr (Some solution1)"
  "solution (self_after (optimize_schedule solver_opt1 self1 h)) = Some solution1" if "2 \<le> h" for h
proof -
  have m: "min h (int (length (demand self1))) = 2"
    using that by (simp add: self1_def)
  have b: "snd (build_optimization_problem self1 (min h (int (length (demand self1)))))
           = Inr (formulated self1 2)"
    using built1 by (simp add: m)
  have e: "extract_schedule self1 (varValue (solver_opt1 (formulated self1 2)))
             (min h (int (length (demand self1)))) = Inr (schedule1, 3375, 45, 0)"
    using extract1 by (simp add: m solver_opt1_def)
  from optimize_optimal(1)[where solve = solver_opt1, OF b _ e]
  show "returned (optimize_schedule solver_opt1 self1 h) = Inr (Some solution1)"
    by (simp add: solver_opt1_def solution1_def)
  from optimize_optimal(2)[where solve = solver_opt1, OF b _ e]
  show "solution (self_after (optimize_schedule solver_opt1 self1 h)) = Some solution1"
    by (simp add: solver_opt1_def solution1_def)
qed

lemma extract_zero:
  "extract_schedule self_zero (\<lambda>v. Some 0) 2 = Inr (schedule_zero, 0, 0, 0)"
  by (simp add: extract_schedule_def extract_hour_def pump_states_def Let_def range_py_def
      upt_rec self1_def pump_P1_def demo_tariff_def a1_def solver_opt1_def solver_infeasible_def solver_zero_def
      self_no_pumps_def self_zero_def schedule1_def solution1_def schedule_zero_def)

lemma built48: "snd (build_optimization_problem self48 48) = Inr (formulated self48 48)"
  by (simp add: build_result self1_def pump_P1_def demo_tariff_def a1_def self48_def a48_def)

lemma feasible48: "feasible (formulated self48 48) a48"
  unfolding feasible_def
proof (intro conjI)
  show "list_all (in_domain a48) (variables (formulated self48 48))"
    by (auto simp: list_all_iff formulated_def declared_variables_def Let_def range_py_def
        in_domain_def LpVariable_def self1_def pump_P1_def demo_tariff_def a1_def self48_def a48_def)
  have first_day: "(\<Sum>t\<leftarrow>[0..<24]. a48 (Startup ''P1'' t)) = 0"
    by (simp add: upt_rec a48_def)
  show "list_all (\<lambda>nc. holds a48 (snd nc)) (constraints (formulated self48 48))"
    using first_day
    by (auto simp: list_all_iff formulated_def range_py_def range_from1_def comp_def
        demand_satisfaction_def total_power_calc_def penalty_calc_def startup_detect_def
        max_startups_def self48_def pump_P1_def demo_tariff_def a48_def)
qed

lemma window48: "(\<Sum>t\<leftarrow>[24..<48]. a48 (Startup ''P1'' t)) = 12"
  by (simp add: upt_rec a48_def)

lemma extract_hour48:
  "t < 48 \<Longrightarrow> extract_hour self48 (\<lambda>v. Some (a48 v)) t = Inr (schedule48 ! t)"
  by (simp add: extract_hour_def pump_states_def Let_def schedule48_def self1_def pump_P1_def demo_tariff_def a1_def self48_def a48_def)

lemma extract48:
  "extract_schedule self48 (\<lambda>v. Some (a48 v)) 48 = Inr (schedule48, 40500, 540, 0)"
proof -
  have "map (extract_hour self48 (\<lambda>v. Some (a48 v))) (range_py 48) = map Inr schedule48"
    by (rule nth_equalityI) (simp_all add: range_py_def extract_hour48 schedule48_def)
  from extract_schedule_success[OF this]
  show ?thesis
    by (simp add: schedule48_def upt_rec)
qed

lemma run48:
  "returned (optimize_schedule solver48 self48 48) = Inr (Some solution48)"
proof -
  have b: "snd (build_optimization_problem self48 (min 48 (int (length (demand self48)))))
           = Inr (formulated self48 48)"
    using built48 by (simp add: self48_def)
  have e: "extract_schedule self48 (varValue (solver48 (formulated self48 48)))
             (min 48 (int (length (demand self48)))) = Inr (schedule48, 40500, 540, 0)"
    using extract48 by (simp add: self48_def solver48_def)
  from optimize_optimal(1)[where solve = solver48, OF b _ e]
  show ?thesis by (simp add: solver48_def solution48_def)
qed

lemma run2:
  "solution (self_after (optimize_schedule solver_opt2 self2 1)) = Some solution2"
  by (simp add: optimize_schedule_def Let_def build_result extract_schedule_def
      extract_hour_def pump_states_def py_div_def range_py_def upt_rec
      self1_def pump_P1_def demo_tariff_def a1_def pump_P2_def self2_def a2_def solver_opt2_def solution2_def)


section \<open>C1: the constraints of the formulation\<close>

text \<open>
  Claim C1. Whenever \<^verbatim>\<open>build_optimization_problem\<close> returns a problem, every assignment
  that the problem accepts satisfies, at every hour \<open>t\<close> of the horizon: the capacity of
  the active pumps covers the demand of the hour; the total power is the power drawn by
  the active pumps; the penalty is at least the penalty rate times the power above the
  subscribed power, and at least zero; and from the second hour on, the start-up
  indicator of every pump is at least the increase of its activation.
\<close>

theorem formulation_invariants:
  assumes built: "snd (build_optimization_problem self h) = Inr prob"
    and feas: "feasible prob a"
    and t: "t < nat h"
  shows "(\<Sum>p\<leftarrow>pumps self. a (Pump_status (pump_id p) t) * capacity_m3h p) \<ge> demand self ! t
       \<and> a (Total_power t) = (\<Sum>p\<leftarrow>pumps self. a (Pump_status (pump_id p) t) * power_kw p)
       \<and> a (Penalty t) \<ge> penalty_rate (tariff self) * (a (Total_power t) - subscribed_power (tariff self))
       \<and> a (Penalty t) \<ge> 0
       \<and> (\<forall>p \<in> set (pumps self). 0 < t \<longrightarrow>
             a (Startup (pump_id p) t) \<ge> a (Pump_status (pump_id p) t) - a (Pump_status (pump_id p) (t - 1)))"
proof -
  have prob: "prob = formulated self h"
    using built by (rule build_Inr)
  have th: "t \<in> set (range_py h)"
    using t by (simp add: range_py_def)
  have "demand_satisfaction self t \<in> set (constraints prob)"
    using th by (simp add: prob formulated_def)
  from feasible_constraint[OF feas this]
  have c1: "(\<Sum>p\<leftarrow>pumps self. a (Pump_status (pump_id p) t) * capacity_m3h p) \<ge> demand self ! t"
    by (simp add: demand_satisfaction_def comp_def mult.commute)
  have "total_power_calc self t \<in> set (constraints prob)"
    using th by (simp add: prob formulated_def)
  from feasible_constraint[OF feas this]
  have c2: "a (Total_power t) = (\<Sum>p\<leftarrow>pumps self. a (Pump_status (pump_id p) t) * power_kw p)"
    by (simp add: total_power_calc_def comp_def mult.commute)
  have "penalty_calc self t \<in> set (constraints prob)"
    using th by (simp add: prob formulated_def)
  from feasible_constraint[OF feas this]
  have c3: "a (Penalty t) \<ge> penalty_rate (tariff self) * (a (Total_power t) - subscribed_power (tariff self))"
    by (simp add: penalty_calc_def)
  have "LpVariable (Penalty t) (Some 0) Continuous \<in> set (variables prob)"
    using th by (simp add: prob formulated_def declared_variables_def Let_def)
  from feasible_variable[OF feas this]
  have c4: "a (Penalty t) \<ge> 0"
    by (simp add: in_domain_def LpVariable_def)
  have c5: "a (Startup (pump_id p) t) \<ge> a (Pump_status (pump_id p) t) - a (Pump_status (pump_id p) (t - 1))"
    if p: "p \<in> set (pumps self)" and pos: "0 < t" for p
  proof -
    have "t \<in> set (range_from1 h)"
      using t pos by (simp add: range_from1_def)
    then have "startup_detect p t \<in> set (constraints prob)"
      using p by (auto simp add: prob formulated_def)
    from feasible_constraint[OF feas this] show ?thesis
      by (simp add: startup_detect_def)
  qed
  show ?thesis
    using c1 c2 c3 c4 c5 by blast
qed

text \<open>The two-hour problem, with the pump started in the second hour.\<close>

theorem formulation_invariants_witness:
  "snd (build_optimization_problem self1 2) = Inr (formulated self1 2)
   \<and> feasible (formulated self1 2) a1
   \<and> (1::nat) < nat 2
   \<and> (\<Sum>p\<leftarrow>pumps self1. a1 (Pump_status (pump_id p) 1) * capacity_m3h p) = 60
   \<and> demand self1 ! 1 = 10
   \<and> a1 (Total_power 1) = 45
   \<and> a1 (Penalty 1) = 0
   \<and> a1 (Startup ''P1'' 1) = 1"
proof -
  have b: "snd (build_optimization_problem self1 2) = Inr (formulated self1 2)"
    by (simp add: build_result self1_def pump_P1_def demo_tariff_def a1_def self48_def a48_def)
  have f: "feasible (formulated self1 2) a1"
    by (simp add: formulation_defs upt_rec self1_def pump_P1_def demo_tariff_def a1_def self48_def a48_def)
  have t: "(1::nat) < nat 2"
    by simp
  from formulation_invariants[OF b f t] show ?thesis
    using b f by (simp add: self1_def pump_P1_def demo_tariff_def a1_def self48_def a48_def)
qed

section \<open>C2: which solver statuses yield a schedule\<close>

text \<open>
  Claim C2 asks for a populated schedule exactly when the solver ends with a proven
  optimum or with the incumbent of a time-limited run, and for a failure without any
  schedule otherwise. The code does so but for one case. For every status other than
  \<^verbatim>\<open>Optimal\<close> it returns \<^verbatim>\<open>None\<close> and stores nothing. For the status
  \<^verbatim>\<open>Optimal\<close>, which is also PuLP's report of a time-limited incumbent, the extracted
  schedule has one record per hour of the effective horizon and is stored in the object;
  it is returned when its total cost is not zero, and when its total cost is zero the
  call raises \<^verbatim>\<open>ZeroDivisionError\<close> with the schedule left in the object. A schedule is
  returned in no other case.
\<close>

theorem optimal_status_outcomes:
  assumes "snd (build_optimization_problem self (min h (int (length (demand self))))) = Inr prob"
  shows "(lp_status (solve prob) \<noteq> ''Optimal'' \<longrightarrow>
            returned (optimize_schedule solve self h) = Inr None
          \<and> self_after (optimize_schedule solve self h) = self)
       \<and> (\<forall>s c e p. lp_status (solve prob) = ''Optimal'' \<longrightarrow>
            extract_schedule self (varValue (solve prob)) (min h (int (length (demand self))))
              = Inr (s, c, e, p) \<longrightarrow>
              length s = nat (min h (int (length (demand self))))
            \<and> solution (self_after (optimize_schedule solve self h))
                = Some \<lparr>schedule = s, total_cost = c, total_energy = e, total_penalties = p,
                        status = ''Optimal'', solve_time = elapsed (solve prob)\<rparr>
            \<and> (c \<noteq> 0 \<longrightarrow> returned (optimize_schedule solve self h)
                = Inr (Some \<lparr>schedule = s, total_cost = c, total_energy = e, total_penalties = p,
                              status = ''Optimal'', solve_time = elapsed (solve prob)\<rparr>))
            \<and> (c = 0 \<longrightarrow> returned (optimize_schedule solve self h) = Inl ZeroDivisionError))
       \<and> (\<forall>sol. returned (optimize_schedule solve self h) = Inr (Some sol) \<longrightarrow>
            lp_status (solve prob) = ''Optimal'' \<and> status sol = ''Optimal''
          \<and> length (schedule sol) = nat (min h (int (length (demand self))))
          \<and> solution (self_after (optimize_schedule solve self h)) = Some sol)"
proof (intro conjI impI allI)
  assume "lp_status (solve prob) \<noteq> ''Optimal''"
  from optimize_not_optimal[where solve = solve, OF assms this]
  show "returned (optimize_schedule solve self h) = Inr None"
    and "self_after (optimize_schedule solve self h) = self"
    by simp_all
next
  fix s c e p
  assume st: "lp_status (solve prob) = ''Optimal''"
    and ex: "extract_schedule self (varValue (solve prob)) (min h (int (length (demand self))))
              = Inr (s, c, e, p)"
  show "length s = nat (min h (int (length (demand self))))"
    using ex by (rule extract_schedule_length)
  show "solution (self_after (optimize_schedule solve self h))
          = Some \<lparr>schedule = s, total_cost = c, total_energy = e, total_penalties = p,
                  status = ''Optimal'', solve_time = elapsed (solve prob)\<rparr>"
    using optimize_optimal(2)[where solve = solve, OF assms st ex] .
  show "returned (optimize_schedule solve self h)
          = Inr (Some \<lparr>schedule = s, total_cost = c, total_energy = e, total_penalties = p,
                        status = ''Optimal'', solve_time = elapsed (solve prob)\<rparr>)"
    if "c \<noteq> 0"
    using optimize_optimal(1)[where solve = solve, OF assms st ex] that by simp
  show "returned (optimize_schedule solve self h) = Inl ZeroDivisionError" if "c = 0"
    using optimize_optimal(1)[where solve = solve, OF assms st ex] that by simp
next
  fix sol
  assume r: "returned (optimize_schedule solve self h) = Inr (Some sol)"
  from optimize_returned_Some[OF r] assms
  have st: "lp_status (solve prob) = ''Optimal''"
    and ex: "extract_schedule self (varValue (solve prob)) (min h (int (length (demand self))))
              = Inr (schedule sol, total_cost sol, total_energy sol, total_penalties sol)"
    and sts: "status sol = ''Optimal''"
    by auto
  show "lp_status (solve prob) = ''Optimal''"
    by (rule st)
  show "status sol = ''Optimal''"
    by (rule sts)
  show "length (schedule sol) = nat (min h (int (length (demand self))))"
    using ex by (rule extract_schedule_length)
  from optimize_optimal[where solve = solve, OF assms st ex] r
  show "solution (self_after (optimize_schedule solve self h)) = Some sol"
    by (simp split: if_splits)
qed

text \<open>
  An infeasible problem; an incumbent delivered after 60 seconds with the status
  \<^verbatim>\<open>Optimal\<close>; and a forecast without demand, whose optimum costs nothing and is
  not returned.
\<close>

theorem optimal_status_outcomes_witness:
  "snd (build_optimization_problem self_no_pumps (min 2 (int (length (demand self_no_pumps)))))
     = Inr (formulated self_no_pumps 2)
   \<and> lp_status (solver_infeasible (formulated self_no_pumps 2)) \<noteq> ''Optimal''
   \<and> returned (optimize_schedule solver_infeasible self_no_pumps 2) = Inr None
   \<and> self_after (optimize_schedule solver_infeasible self_no_pumps 2) = self_no_pumps
   \<and> snd (build_optimization_problem self1 (min 2 (int (length (demand self1)))))
     = Inr (formulated self1 2)
   \<and> lp_status (solver_incumbent1 (formulated self1 2)) = ''Optimal''
   \<and> elapsed (solver_incumbent1 (formulated self1 2)) = 60
   \<and> extract_schedule self1 (varValue (solver_incumbent1 (formulated self1 2)))
        (min 2 (int (length (demand self1)))) = Inr (schedule1, 3375, 45, 0)
   \<and> returned (optimize_schedule solver_incumbent1 self1 2) = Inr (Some solution_incumbent1)
   \<and> status solution_incumbent1 = ''Optimal''
   \<and> length (schedule solution_incumbent1) = 2
   \<and> solution (self_after (optimize_schedule solver_incumbent1 self1 2)) = Some solution_incumbent1
   \<and> snd (build_optimization_problem self_zero (min 2 (int (length (demand self_zero)))))
     = Inr (formulated self_zero 2)
   \<and> lp_status (solver_zero (formulated self_zero 2)) = ''Optimal''
   \<and> extract_schedule self_zero (varValue (solver_zero (formulated self_zero 2)))
        (min 2 (int (length (demand self_zero)))) = Inr (schedule_zero, 0, 0, 0)
   \<and> returned (optimize_schedule solver_zero self_zero 2) = Inl ZeroDivisionError
   \<and> solution (self_after (optimize_schedule solver_zero self_zero 2)) = Some solution_zero"
proof -
  have b0: "snd (build_optimization_problem self_no_pumps (min 2 (int (length (demand self_no_pumps)))))
     = Inr (formulated self_no_pumps 2)"
    by (simp add: build_result self_no_pumps_def)
  have s0: "lp_status (solver_infeasible (formulated self_no_pumps 2)) \<noteq> ''Optimal''"
    by (simp add: solver_infeasible_def)
  have b1: "snd (build_optimization_problem self1 (min 2 (int (length (demand self1)))))
           = Inr (formulated self1 2)"
    using built1 by (simp add: self1_def)
  have s1: "lp_status (solver_incumbent1 (formulated self1 2)) = ''Optimal''"
    and t1: "elapsed (solver_incumbent1 (formulated self1 2)) = 60"
    by (simp_all add: solver_incumbent1_def)
  have e1: "extract_schedule self1 (varValue (solver_incumbent1 (formulated self1 2)))
        (min 2 (int (length (demand self1)))) = Inr (schedule1, 3375, 45, 0)"
    using extract1 by (simp add: solver_incumbent1_def self1_def)
  have bz: "snd (build_optimization_problem self_zero (min 2 (int (length (demand self_zero)))))
     = Inr (formulated self_zero 2)"
    by (simp add: build_result self_zero_def pump_P1_def)
  have sz: "lp_status (solver_zero (formulated self_zero 2)) = ''Optimal''"
    and tz: "elapsed (solver_zero (formulated self_zero 2)) = 1"
    by (simp_all add: solver_zero_def)
  have ez: "extract_schedule self_zero (varValue (solver_zero (formulated self_zero 2)))
        (min 2 (int (length (demand self_zero)))) = Inr (schedule_zero, 0, 0, 0)"
    using extract_zero by (simp add: solver_zero_def self_zero_def)
  note o0 = optimal_status_outcomes[where solve = solver_infeasible, OF b0]
  note o1 = optimal_status_outcomes[where solve = solver_incumbent1, OF b1]
  note oz = optimal_status_outcomes[where solve = solver_zero, OF bz]
  have r0: "returned (optimize_schedule solver_infeasible self_no_pumps 2) = Inr None"
    and a0: "self_after (optimize_schedule solver_infeasible self_no_pumps 2) = self_no_pumps"
    using o0 s0 by blast+
  have r1: "returned (optimize_schedule solver_incumbent1 self1 2) = Inr (Some solution_incumbent1)"
    and a1: "solution (self_after (optimize_schedule solver_incumbent1 self1 2))
               = Some solution_incumbent1"
    using o1 s1 e1 by (simp_all add: solution_incumbent1_def t1)
  have rz: "returned (optimize_schedule solver_zero self_zero 2) = Inl ZeroDivisionError"
    and az: "solution (self_after (optimize_schedule solver_zero self_zero 2)) = Some solution_zero"
    using oz sz ez by (simp_all add: solution_zero_def tz)
  have l: "status solution_incumbent1 = ''Optimal''" "length (schedule solution_incumbent1) = 2"
    by (simp_all add: solution_incumbent1_def schedule1_def)
  show ?thesis
    using b0 s0 r0 a0 b1 s1 t1 e1 r1 l a1 bz sz ez rz az by blast
qed

section \<open>C3: the percentage of savings on a baseline without cost\<close>

text \<open>
  Claim C3 asks for a percentage of 0 when the baseline cost of the compared window is
  0. The code divides without a guard (the penalty percentage next to it has one): the
  reported percentage is then infinite with the sign of the savings, or not a number,
  and never 0.
\<close>

theorem savings_percent_unguarded:
  assumes "solution self = Some sol"
    and "sum_list (map bl_total_cost_fcfa
           (take (length (schedule sol) * length (pumps self)) rows)) = 0"
  shows "map_option savings_percent (snd (compare_baseline_vs_optimized self rows))
           = Some (if total_cost sol < 0 then PInf else if 0 < total_cost sol then NInf else NaN)
       \<and> map_option savings_percent (snd (compare_baseline_vs_optimized self rows)) \<noteq> Some (Fin 0)"
  using assms
  by (simp add: compare_baseline_vs_optimized_def Let_def np_div_def np_mul_def)

text \<open>The schedule of the two-hour run against the baseline of an idle installation.\<close>

theorem savings_percent_unguarded_witness:
  "solution (self_after (optimize_schedule solver_opt1 self1 2)) = Some solution1
   \<and> sum_list (map bl_total_cost_fcfa
        (take (length (schedule solution1)
                 * length (pumps (self_after (optimize_schedule solver_opt1 self1 2))))
           baseline_idle)) = 0
   \<and> total_cost solution1 = 3375
   \<and> map_option savings_percent
        (snd (compare_baseline_vs_optimized (self_after (optimize_schedule solver_opt1 self1 2))
               baseline_idle)) = Some NInf"
proof -
  have s: "solution (self_after (optimize_schedule solver_opt1 self1 2)) = Some solution1"
    by (rule run1) simp
  have z: "sum_list (map bl_total_cost_fcfa
        (take (length (schedule solution1)
                 * length (pumps (self_after (optimize_schedule solver_opt1 self1 2))))
           baseline_idle)) = 0"
    by (simp add: baseline_idle_def optimize_keeps_inputs solution1_def schedule1_def self1_def)
  have t: "total_cost solution1 = 3375"
    by (simp add: solution1_def)
  from savings_percent_unguarded[OF s z] show ?thesis
    using s z t by simp
qed

section \<open>C4: no validation of the fleet or the horizon\<close>

text \<open>
  Claim C4, as amended. \<^verbatim>\<open>optimize_schedule\<close> does not validate the pump list or the
  horizon. With an empty pump list or a horizon that is zero or negative (and pump ids
  that are distinct), it formulates the problem over the effective horizon, launches the
  solver on it and prints the solver's status; when that status is not \<^verbatim>\<open>Optimal\<close>
  the result is \<^verbatim>\<open>None\<close>, as for any other input.
\<close>

theorem no_input_validation:
  assumes "pumps self = [] \<or> h \<le> 0"
    and "distinct (map pump_id (pumps self))"
  shows "snd (build_optimization_problem self (min h (int (length (demand self)))))
           = Inr (formulated self (min h (int (length (demand self)))))
       \<and> Msg_construction (min h (int (length (demand self)))) (length (pumps self))
           \<in> set (printed (optimize_schedule solve self h))
       \<and> Msg_solver_launch \<in> set (printed (optimize_schedule solve self h))
       \<and> Msg_status (lp_status (solve (formulated self (min h (int (length (demand self)))))))
           \<in> set (printed (optimize_schedule solve self h))
       \<and> (lp_status (solve (formulated self (min h (int (length (demand self)))))) \<noteq> ''Optimal''
            \<longrightarrow> returned (optimize_schedule solve self h) = Inr None)"
proof -
  have b: "snd (build_optimization_problem self (min h (int (length (demand self)))))
           = Inr (formulated self (min h (int (length (demand self)))))"
    using assms(2) by (simp add: build_result)
  show ?thesis
    using b optimize_launches_solver[where solve = solve, OF b]
      optimize_prints_construction[of h self solve]
      optimize_not_optimal(1)[where solve = solve, OF b]
    by blast
qed

text \<open>The fleet without pumps: the solver is launched and reports infeasibility.\<close>

theorem no_input_validation_witness:
  "pumps self_no_pumps = []
   \<and> distinct (map pump_id (pumps self_no_pumps))
   \<and> Msg_construction 2 0 \<in> set (printed (optimize_schedule solver_infeasible self_no_pumps 2))
   \<and> Msg_solver_launch \<in> set (printed (optimize_schedule solver_infeasible self_no_pumps 2))
   \<and> Msg_status ''Infeasible'' \<in> set (printed (optimize_schedule solver_infeasible self_no_pumps 2))
   \<and> lp_status (solver_infeasible (formulated self_no_pumps 2)) \<noteq> ''Optimal''
   \<and> returned (optimize_schedule solver_infeasible self_no_pumps 2) = Inr None"
proof -
  have a: "pumps self_no_pumps = [] \<or> (2::int) \<le> 0"
    by (simp add: self_no_pumps_def)
  have d: "distinct (map pump_id (pumps self_no_pumps))"
    by (simp add: self_no_pumps_def)
  from no_input_validation[where solve = solver_infeasible, OF a d]
  show ?thesis
    using d by (simp add: self_no_pumps_def solver_infeasible_def)
qed

text \<open>
  Claim C4 as stated fails. Without pumps, the problem is formulated with six
  constraints and solved; the caller gets the \<^verbatim>\<open>None\<close> of an infeasible problem. With
  a horizon of -3, the problem is formulated with the start-up cap alone and solved; the
  caller gets the division by zero of an empty schedule.
\<close>

theorem input_validation_counterexample:
  "pumps self_no_pumps = []
   \<and> printed (optimize_schedule solver_infeasible self_no_pumps 2) =
       [Msg_construction 2 0, Msg_objective_defined, Msg_constraints_added 6,
        Msg_solver_launch, Msg_status ''Infeasible'', Warn_not_optimal, Msg_infeasible]
   \<and> returned (optimize_schedule solver_infeasible self_no_pumps 2) = Inr None
   \<and> printed (optimize_schedule solver_zero self1 (- 3)) =
       [Msg_construction (- 3) 1, Msg_objective_defined, Msg_constraints_added 1,
        Msg_solver_launch, Msg_status ''Optimal'', Msg_optimized_cost 0, Msg_energy 0]
   \<and> returned (optimize_schedule solver_zero self1 (- 3)) = Inl ZeroDivisionError"
  by (simp add: optimize_schedule_def Let_def build_printed build_result formulated_def
      extract_schedule_def py_div_def range_py_def range_from1_def upt_rec
      self1_def pump_P1_def demo_tariff_def a1_def solver_opt1_def solver_infeasible_def solver_zero_def
      self_no_pumps_def self_zero_def schedule1_def solution1_def schedule_zero_def)

section \<open>C5: the cap on start-ups\<close>

text \<open>
  The constraint of the last loop: in every assignment that the problem accepts, a pump
  has at most 8 start-ups within the hours that \<^verbatim>\<open>range(min(24, horizon_hours))\<close>
  enumerates.
\<close>

lemma first_day_startup_cap:
  assumes "snd (build_optimization_problem self h) = Inr prob"
    and "feasible prob a"
    and "p \<in> set (pumps self)"
  shows "(\<Sum>t\<leftarrow>range_py (min 24 h). a (Startup (pump_id p) t)) \<le> 8"
proof -
  have prob: "prob = formulated self h"
    using assms(1) by (rule build_Inr)
  have "max_startups h p \<in> set (constraints prob)"
    using assms(3) by (simp add: prob formulated_def)
  from feasible_constraint[OF assms(2) this] show ?thesis
    by (simp add: max_startups_def comp_def)
qed

text \<open>
  Claim C5 asks for at most 8 start-ups of every pump in every 24-hour window of the
  horizon, and the comment of the code sets the limit at 8 per day. The constraint covers
  the first day alone: on a horizon of 48 hours the formulated problem accepts an
  assignment without any start-up in the first day and with 12 start-ups of the pump in
  the 24 hours that begin at hour 24.
\<close>

theorem startup_cap_misses_second_day:
  "snd (build_optimization_problem self48 48) = Inr (formulated self48 48)
   \<and> feasible (formulated self48 48) a48
   \<and> pump_P1 \<in> set (pumps self48)
   \<and> (\<Sum>t\<leftarrow>[0..<24]. a48 (Startup (pump_id pump_P1) t)) = 0
   \<and> (\<Sum>t\<leftarrow>[24..<24 + 24]. a48 (Startup (pump_id pump_P1) t)) = 12"
proof -
  have first_day: "(\<Sum>t\<leftarrow>[0..<24]. a48 (Startup (pump_id pump_P1) t)) = 0"
    by (simp add: upt_rec a48_def)
  show ?thesis
    using built48 feasible48 window48 first_day
    by (simp add: self48_def pump_P1_def)
qed

section \<open>C6: the objective\<close>




section \<open>C7: truncation to the forecast\<close>

text \<open>
  Claim C7. When the forecast is shorter than the requested horizon,
  \<^verbatim>\<open>optimize_schedule\<close> prints a warning and goes on exactly as for a request of the
  forecast's length: the problem is formulated for that many hours, nothing is raised
  on account of the truncation, and a schedule that is returned has exactly that many
  hourly records.
\<close>

theorem truncation_law:
  assumes "int (length (demand self)) < h"
  shows "printed (optimize_schedule solve self h) =
           Warn_demand_short (length (demand self))
             # printed (optimize_schedule solve self (int (length (demand self))))
       \<and> Msg_construction (int (length (demand self))) (length (pumps self))
           \<in> set (printed (optimize_schedule solve self h))
       \<and> returned (optimize_schedule solve self h) =
           returned (optimize_schedule solve self (int (length (demand self))))
       \<and> (\<forall>sol. returned (optimize_schedule solve self h) = Inr (Some sol) \<longrightarrow>
             length (schedule sol) = length (demand self))"
proof -
  have m: "min h (int (length (demand self))) = int (length (demand self))"
    using assms by simp
  have len: "length (schedule sol) = length (demand self)"
    if "returned (optimize_schedule solve self h) = Inr (Some sol)" for sol
  proof -
    from optimize_returned_Some[OF that] obtain prob where
      "extract_schedule self (varValue (solve prob)) (min h (int (length (demand self))))
              = Inr (schedule sol, total_cost sol, total_energy sol, total_penalties sol)"
      by blast
    from extract_schedule_length[OF this] show ?thesis
      by (simp add: m)
  qed
  show ?thesis
    using optimize_truncates(1,2)[where solve = solve, OF assms]
      optimize_prints_construction[of h self solve] len
    by (simp add: m)
qed

text \<open>Five hours requested from a forecast of two.\<close>

theorem truncation_law_witness:
  "int (length (demand self1)) < 5
   \<and> printed (optimize_schedule solver_opt1 self1 5) =
       Warn_demand_short 2 # printed (optimize_schedule solver_opt1 self1 2)
   \<and> Msg_construction 2 1 \<in> set (printed (optimize_schedule solver_opt1 self1 5))
   \<and> returned (optimize_schedule solver_opt1 self1 5) = Inr (Some solution1)
   \<and> length (schedule solution1) = 2"
proof -
  have a: "int (length (demand self1)) < 5"
    by (simp add: self1_def)
  have r: "returned (optimize_schedule solver_opt1 self1 5) = Inr (Some solution1)"
    by (rule run1) simp
  have i2: "int 2 = 2"
    by simp
  have len: "length (demand self1) = 2" "length (pumps self1) = 1"
    by (simp_all add: self1_def)
  note law = truncation_law[where solve = solver_opt1, OF a, unfolded len i2]
  show ?thesis
    using a r law by blast
qed

section \<open>C8: the comparison with the baseline\<close>

text \<open>
  Claim C8, as amended. For a stored schedule of \<open>H\<close> hours and \<open>N\<close> configured pumps,
  the comparator sums the baseline cost, energy and penalty over the first \<open>H * N\<close>
  records of the baseline; these are the records of the first \<open>H\<close> hours when the
  baseline holds \<open>N\<close> records per hour. The savings are the baseline total minus the
  optimized total, the monthly projection is \<open>(savings / H) * 720\<close> (a real number when
  \<open>H\<close> is positive) and the annual projection is twelve times the monthly one.
\<close>

theorem comparator_window:
  assumes "solution self = Some sol"
  shows "\<exists>c. snd (compare_baseline_vs_optimized self rows) = Some c
       \<and> baseline_cost c
           = sum_list (map bl_total_cost_fcfa (take (length (schedule sol) * length (pumps self)) rows))
       \<and> savings_fcfa c = baseline_cost c - total_cost sol
       \<and> energy_savings_kwh c
           = sum_list (map bl_power_kw (take (length (schedule sol) * length (pumps self)) rows))
             - total_energy sol
       \<and> penalty_reduction c
           = sum_list (map bl_penalty_fcfa (take (length (schedule sol) * length (pumps self)) rows))
             - total_penalties sol
       \<and> monthly_savings_projection c
           = np_mul (np_div (savings_fcfa c) (real (length (schedule sol)))) 720
       \<and> annual_savings_projection c = np_mul (monthly_savings_projection c) 12
       \<and> (0 < length (schedule sol) \<longrightarrow>
            monthly_savings_projection c = Fin (savings_fcfa c / real (length (schedule sol)) * 720)
          \<and> annual_savings_projection c
              = Fin (savings_fcfa c / real (length (schedule sol)) * 720 * 12))
       \<and> (0 < length (pumps self) \<longrightarrow>
            map timestamp rows = map (\<lambda>i. i div length (pumps self)) [0..<length rows] \<longrightarrow>
            take (length (schedule sol) * length (pumps self)) rows
              = spec_baseline_window (length (schedule sol)) rows)"
proof -
  have layout: "take (length (schedule sol) * length (pumps self)) rows
              = spec_baseline_window (length (schedule sol)) rows"
    if n: "0 < length (pumps self)"
      and m: "map timestamp rows = map (\<lambda>i. i div length (pumps self)) [0..<length rows]"
  proof -
    have ts: "timestamp (rows ! i) = i div length (pumps self)" if "i < length rows" for i
      using arg_cong[OF m, of "\<lambda>xs. xs ! i"] that by simp
    have "\<forall>i<length rows. (timestamp (rows ! i) < length (schedule sol))
            = (i < length (schedule sol) * length (pumps self))"
      using n ts by (simp add: div_less_iff_less_mult)
    from filter_prefix[of rows "\<lambda>r. timestamp r < length (schedule sol)", OF this]
    show ?thesis by (simp add: spec_baseline_window_def)
  qed
  show ?thesis
    using assms layout
    by (simp add: compare_baseline_vs_optimized_def Let_def np_div_def np_mul_def)
qed

text \<open>One hour, two pumps, and a baseline with two records per hour.\<close>

theorem comparator_window_witness:
  "solution (self_after (optimize_schedule solver_opt2 self2 1)) = Some solution2
   \<and> 0 < length (schedule solution2)
   \<and> 0 < length (pumps (self_after (optimize_schedule solver_opt2 self2 1)))
   \<and> map timestamp baseline_per_pump = map (\<lambda>i. i div 2) [0..<4]
   \<and> map_option baseline_cost
        (snd (compare_baseline_vs_optimized (self_after (optimize_schedule solver_opt2 self2 1))
               baseline_per_pump)) = Some 5000
   \<and> map_option savings_fcfa
        (snd (compare_baseline_vs_optimized (self_after (optimize_schedule solver_opt2 self2 1))
               baseline_per_pump)) = Some 1625
   \<and> map_option monthly_savings_projection
        (snd (compare_baseline_vs_optimized (self_after (optimize_schedule solver_opt2 self2 1))
               baseline_per_pump)) = Some (Fin 1170000)
   \<and> map_option annual_savings_projection
        (snd (compare_baseline_vs_optimized (self_after (optimize_schedule solver_opt2 self2 1))
               baseline_per_pump)) = Some (Fin 14040000)
   \<and> take 2 baseline_per_pump = spec_baseline_window 1 baseline_per_pump"
proof -
  define self8 where "self8 = self_after (optimize_schedule solver_opt2 self2 1)"
  have s: "solution self8 = Some solution2"
    unfolding self8_def by (rule run2)
  have p: "pumps self8 = [pump_P1, pump_P2]"
    unfolding self8_def by (simp add: optimize_keeps_inputs self2_def)
  have h: "length (schedule solution2) = 1"
    by (simp add: solution2_def)
  have n: "length (pumps self8) = 2"
    by (simp add: p)
  have m: "map timestamp baseline_per_pump = map (\<lambda>i. i div 2) [0..<4]"
    by (simp add: baseline_per_pump_def upt_rec)
  have l: "length baseline_per_pump = 4"
    by (simp add: baseline_per_pump_def)
  have t: "total_cost solution2 = 3375"
    by (simp add: solution2_def)
  from comparator_window[OF s, of baseline_per_pump]
  obtain c where c: "snd (compare_baseline_vs_optimized self8 baseline_per_pump) = Some c"
    and bc: "baseline_cost c = sum_list (map bl_total_cost_fcfa (take 2 baseline_per_pump))"
    and sv: "savings_fcfa c = baseline_cost c - 3375"
    and mo: "monthly_savings_projection c = Fin (savings_fcfa c / 1 * 720)"
    and an: "annual_savings_projection c = Fin (savings_fcfa c / 1 * 720 * 12)"
    and w: "take 2 baseline_per_pump = spec_baseline_window 1 baseline_per_pump"
    using m by (auto simp: h n l t)
  have "baseline_cost c = 5000"
    using bc by (simp add: baseline_per_pump_def)
  then show ?thesis
    using s c sv mo an w m h n by (simp add: self8_def [symmetric])
qed

text \<open>
  Claim C8 as stated fails: with two pumps and a baseline of one record per hour, the
  baseline cost compared with a one-hour schedule is that of two hours, 12000, while the
  first hour costs 5000.
\<close>

theorem comparator_hours_counterexample:
  "solution (self_after (optimize_schedule solver_opt2 self2 1)) = Some solution2
   \<and> length (schedule solution2) = 1
   \<and> map timestamp baseline_hourly = [0, 1]
   \<and> map_option baseline_cost
        (snd (compare_baseline_vs_optimized (self_after (optimize_schedule solver_opt2 self2 1))
               baseline_hourly)) = Some 12000
   \<and> sum_list (map bl_total_cost_fcfa (spec_baseline_window 1 baseline_hourly)) = 5000"
proof -
  define self8 where "self8 = self_after (optimize_schedule solver_opt2 self2 1)"
  have s: "solution self8 = Some solution2"
    unfolding self8_def by (rule run2)
  have p: "pumps self8 = [pump_P1, pump_P2]"
    unfolding self8_def by (simp add: optimize_keeps_inputs self2_def)
  have "map_option baseline_cost (snd (compare_baseline_vs_optimized self8 baseline_hourly))
          = Some 12000"
    by (simp add: compare_baseline_vs_optimized_def Let_def s p solution2_def baseline_hourly_def)
  then show ?thesis
    using s by (simp add: self8_def [symmetric] solution2_def baseline_hourly_def
        spec_baseline_window_def)
qed

section \<open>C9: the tariff follows the hour index\<close>

text \<open>
  Claim C9. On a horizon longer than 24 hours, every hour with index \<open>t\<close> of 23 or more
  is priced at the off-peak rate whatever its time of day: the coefficient of its total
  power in the objective is the off-peak rate, and so is the tariff of its record in
  every schedule that \<^verbatim>\<open>optimize_schedule\<close> returns.
\<close>

theorem raw_hour_index_tariff:
  assumes "24 < h" and "23 \<le> t"
  shows "(\<forall>prob. snd (build_optimization_problem self h) = Inr prob \<longrightarrow> t < nat h \<longrightarrow>
            coeff (objective prob) (Total_power t) = offpeak (tariff self))
       \<and> (\<forall>solve sol. returned (optimize_schedule solve self h) = Inr (Some sol) \<longrightarrow>
            t < length (schedule sol) \<longrightarrow>
              hour (schedule sol ! t) = t
            \<and> tariff_fcfa_kwh (schedule sol ! t) = offpeak (tariff self)
            \<and> energy_cost_fcfa (schedule sol ! t) = total_power_kw (schedule sol ! t) * offpeak (tariff self))"
proof (intro conjI allI impI)
  fix prob
  assume "snd (build_optimization_problem self h) = Inr prob" and t: "t < nat h"
  then have prob: "prob = formulated self h"
    by (simp add: build_Inr)
  show "coeff (objective prob) (Total_power t) = offpeak (tariff self)"
    using assms(2) t by (simp add: prob formulated_def range_py_def coeff_objective)
next
  fix solve sol
  assume r: "returned (optimize_schedule solve self h) = Inr (Some sol)"
    and t: "t < length (schedule sol)"
  from optimize_returned_Some[OF r] obtain prob where
    ex: "extract_schedule self (varValue (solve prob)) (min h (int (length (demand self))))
              = Inr (schedule sol, total_cost sol, total_energy sol, total_penalties sol)"
    by blast
  have "t < nat (min h (int (length (demand self))))"
    using t extract_schedule_length[OF ex] by simp
  from extract_schedule_nth[OF ex this]
  have rec_t: "extract_hour self (varValue (solve prob)) t = Inr (schedule sol ! t)" .
  from extract_hour_fields[OF rec_t]
  have "hour (schedule sol ! t) = t
       \<and> tariff_fcfa_kwh (schedule sol ! t) = offpeak (tariff self)
       \<and> energy_cost_fcfa (schedule sol ! t) = total_power_kw (schedule sol ! t) * offpeak (tariff self)"
    using assms(2) by simp
  then show "hour (schedule sol ! t) = t"
    and "tariff_fcfa_kwh (schedule sol ! t) = offpeak (tariff self)"
    and "energy_cost_fcfa (schedule sol ! t) = total_power_kw (schedule sol ! t) * offpeak (tariff self)"
    by simp_all
qed

text \<open>Hour 31 of a two-day horizon, which is 7 o'clock of the second day.\<close>

theorem raw_hour_index_tariff_witness:
  "(24::int) < 48 \<and> (23::nat) \<le> 31
   \<and> snd (build_optimization_problem self48 48) = Inr (formulated self48 48)
   \<and> (31::nat) < nat 48
   \<and> coeff (objective (formulated self48 48)) (Total_power 31) = 75
   \<and> returned (optimize_schedule solver48 self48 48) = Inr (Some solution48)
   \<and> 31 < length (schedule solution48)
   \<and> hour (schedule solution48 ! 31) = 31
   \<and> tariff_fcfa_kwh (schedule solution48 ! 31) = 75
   \<and> offpeak (tariff self48) = 75 \<and> peak (tariff self48) = 110"
proof -
  have a: "(24::int) < 48" and b: "(23::nat) \<le> 31"
    by simp_all
  have l: "31 < length (schedule solution48)"
    by (simp add: solution48_def schedule48_def)
  from raw_hour_index_tariff[of 48 31 self48, OF a b]
  show ?thesis
    using built48 run48 l by (simp add: self48_def demo_tariff_def)
qed

section \<open>C10: the division by the optimized cost\<close>

text \<open>
  Claim C10. When the solver's status is \<^verbatim>\<open>Optimal\<close> and the extracted schedule has a
  total cost of zero, \<^verbatim>\<open>optimize_schedule\<close> raises \<^verbatim>\<open>ZeroDivisionError\<close> instead of
  returning the schedule, which by then is stored in the object.
\<close>

theorem zero_cost_division:
  assumes "snd (build_optimization_problem self (min h (int (length (demand self))))) = Inr prob"
    and "lp_status (solve prob) = ''Optimal''"
    and "extract_schedule self (varValue (solve prob)) (min h (int (length (demand self))))
           = Inr (sched, 0, energy, penalties)"
  shows "returned (optimize_schedule solve self h) = Inl ZeroDivisionError
       \<and> solution (self_after (optimize_schedule solve self h)) =
           Some \<lparr>schedule = sched, total_cost = 0, total_energy = energy,
                 total_penalties = penalties, status = ''Optimal'',
                 solve_time = elapsed (solve prob)\<rparr>"
  using optimize_optimal[where solve = solve, OF assms] by simp

text \<open>A forecast without demand, with every pump off.\<close>

theorem zero_cost_division_witness:
  "snd (build_optimization_problem self_zero (min 2 (int (length (demand self_zero)))))
     = Inr (formulated self_zero 2)
   \<and> lp_status (solver_zero (formulated self_zero 2)) = ''Optimal''
   \<and> feasible (formulated self_zero 2) (\<lambda>v. 0)
   \<and> extract_schedule self_zero (varValue (solver_zero (formulated self_zero 2)))
        (min 2 (int (length (demand self_zero)))) = Inr (schedule_zero, 0, 0, 0)
   \<and> returned (optimize_schedule solver_zero self_zero 2) = Inl ZeroDivisionError"
proof -
  have b: "snd (build_optimization_problem self_zero (min 2 (int (length (demand self_zero)))))
     = Inr (formulated self_zero 2)"
    by (simp add: build_result self_zero_def pump_P1_def)
  have s: "lp_status (solver_zero (formulated self_zero 2)) = ''Optimal''"
    by (simp add: solver_zero_def)
  have f: "feasible (formulated self_zero 2) (\<lambda>v. 0)"
    by (simp add: formulation_defs upt_rec self_zero_def pump_P1_def demo_tariff_def)
  have e: "extract_schedule self_zero (varValue (solver_zero (formulated self_zero 2)))
        (min 2 (int (length (demand self_zero)))) = Inr (schedule_zero, 0, 0, 0)"
    using extract_zero by (simp add: solver_zero_def self_zero_def)
  from zero_cost_division[where solve = solver_zero, OF b s e]
  show ?thesis
    using b s f e by simp
qed

end
